theory Spec2Isabelle
  imports Complex_Main
begin

section \<open>StarForge time model: Clock, Timer, throttle and time-period conversions\<close>

text \<open>
  A shallow embedding of \<^verbatim>\<open>src/system/timing.ts\<close> and \<^verbatim>\<open>src/system/throttler.ts\<close>.

  Numbers. A TypeScript \<^verbatim>\<open>number\<close> is an IEEE-754 double. For the clock, the timers, the
  throttle and the unit conversions the embedding reads the arithmetic of the source over
  \<^typ>\<open>real\<close>: finite values, exact \<open>+\<close>, \<open>-\<close>, \<open>*\<close>, \<open>/\<close>. The conversions between milliseconds
  and structured periods are computed as the program computes them, in binary64: every
  operation is the exact one followed by rounding to the nearest double (see the subsection on
  doubles). \<^verbatim>\<open>NaN\<close> is written out where the source produces it from an \<^verbatim>\<open>undefined\<close> operand.

  Time. \<^verbatim>\<open>Date.now()\<close>, \<^verbatim>\<open>new Date().getTime()\<close> and \<^verbatim>\<open>performance.now()\<close> are reads of the
  environment: every function that performs such a read takes the value read as an argument,
  one argument per read, in the order the source performs them.
\<close>

subsection \<open>Clock: fields, time and scale\<close>

text \<open>
  \<^verbatim>\<open>class Timer { clock: Clock; name: string; timestamp!: number; ... }\<close>
  The constructor assigns \<^verbatim>\<open>clock\<close> and \<^verbatim>\<open>name\<close> only: \<^verbatim>\<open>timestamp\<close> stays \<^verbatim>\<open>undefined\<close>
  (\<open>None\<close>) until \<^verbatim>\<open>start()\<close> or \<^verbatim>\<open>getDelta()\<close> writes it. The back reference \<^verbatim>\<open>clock\<close> is the
  clock argument of the timer functions below.
\<close>

record Timer =
  name :: string
  timestamp :: "real option"

text \<open>
  \<^verbatim>\<open>class Clock\<close>: \<^verbatim>\<open>clockTimeMs\<close>, \<^verbatim>\<open>realTimestampMs\<close>, \<^verbatim>\<open>_isPaused = false\<close>, \<^verbatim>\<open>scale = 1\<close>,
  \<^verbatim>\<open>savedScale = 1\<close>, \<^verbatim>\<open>timers = new Map<string, Timer>()\<close>, \<^verbatim>\<open>timePublisherId = undefined\<close>.
  The field \<^verbatim>\<open>_isPaused\<close> is \<open>isPaused\<close> here (the method \<^verbatim>\<open>isPaused()\<close> returns it).
  A timer handle is the number the platform returns from \<^verbatim>\<open>setInterval\<close>.
\<close>

record Clock =
  clockTimeMs :: real
  realTimestampMs :: real
  isPaused :: bool
  scale :: real
  savedScale :: real
  timers :: "string \<rightharpoonup> Timer"
  timePublisherId :: "nat option"

text \<open>\<^verbatim>\<open>setTime(timeMs) { this.realTimestampMs = Date.now(); this.clockTimeMs = timeMs; }\<close>\<close>

definition setTime :: "Clock \<Rightarrow> real \<Rightarrow> real \<Rightarrow> Clock" where
  "setTime c now timeMs = c\<lparr>realTimestampMs := now, clockTimeMs := timeMs\<rparr>"

text \<open>
  \<^verbatim>\<open>getTime() { const realTimeDelta = Date.now() - this.realTimestampMs;
              return this.clockTimeMs + (realTimeDelta) * this.scale; }\<close>
\<close>

definition getTime :: "Clock \<Rightarrow> real \<Rightarrow> real" where
  "getTime c now = clockTimeMs c + (now - realTimestampMs c) * scale c"

text \<open>\<^verbatim>\<open>getScale() { return this.isPaused()? this.savedScale: this.scale; }\<close>\<close>

definition getScale :: "Clock \<Rightarrow> real" where
  "getScale c = (if isPaused c then savedScale c else scale c)"

text \<open>
  \<^verbatim>\<open>setScale(scale) { if(this.isPaused()){ this.savedScale = scale; }
                    else { this.setTime(this.getTime()); this.scale = scale; } }\<close>
  The argument \<^verbatim>\<open>this.getTime()\<close> is evaluated first and reads the time \<open>now1\<close>; the body of
  \<^verbatim>\<open>setTime\<close> then reads \<open>now2\<close>. A call that happens at one instant \<open>t\<close> is \<open>setScale c t t s\<close>.
\<close>

definition setScale :: "Clock \<Rightarrow> real \<Rightarrow> real \<Rightarrow> real \<Rightarrow> Clock" where
  "setScale c now1 now2 s =
     (if isPaused c then c\<lparr>savedScale := s\<rparr>
      else (setTime c now2 (getTime c now1))\<lparr>scale := s\<rparr>)"

text \<open>
  \<^verbatim>\<open>setPaused(value) {
      if(value){ if(!this.isPaused()){ this.savedScale = this.scale; this.setScale(0);
                                       this._isPaused = true; } }
      else{ if(this.isPaused()){ this._isPaused = false; this.setScale(this.savedScale); } }
      return this.isPaused(); }\<close>
  The function returns the clock after the call; the value the method returns is \<open>isPaused\<close> of
  that clock. \<open>now1\<close> and \<open>now2\<close> are the two reads of the inner \<^verbatim>\<open>setScale\<close>.
\<close>

definition setPaused :: "Clock \<Rightarrow> real \<Rightarrow> real \<Rightarrow> bool \<Rightarrow> Clock" where
  "setPaused c now1 now2 v =
     (if v then
        (if \<not> isPaused c
         then (setScale (c\<lparr>savedScale := scale c\<rparr>) now1 now2 0)\<lparr>isPaused := True\<rparr>
         else c)
      else
        (if isPaused c
         then (let c1 = c\<lparr>isPaused := False\<rparr> in setScale c1 now1 now2 (savedScale c1))
         else c))"

text \<open>
  \<^verbatim>\<open>constructor(clockTimeMs: number = Date.now()){ this.setTime(clockTimeMs); }\<close>
  after the field initialisers. \<open>None\<close> is the omitted argument, whose default reads \<open>now1\<close>;
  \<^verbatim>\<open>setTime\<close> reads \<open>now2\<close>.
\<close>

definition newClock :: "real option \<Rightarrow> real \<Rightarrow> real \<Rightarrow> Clock" where
  "newClock arg now1 now2 =
     \<lparr>clockTimeMs = (case arg of None \<Rightarrow> now1 | Some t \<Rightarrow> t),
      realTimestampMs = now2,
      isPaused = False, scale = 1, savedScale = 1,
      timers = Map.empty, timePublisherId = None\<rparr>"

text \<open>
  A run of scale changes: each pair \<open>(t, s)\<close> is a call \<^verbatim>\<open>setScale(s)\<close> made at the instant \<open>t\<close>.
\<close>

fun setScales :: "Clock \<Rightarrow> (real \<times> real) list \<Rightarrow> Clock" where
  "setScales c [] = c"
| "setScales c ((t, s) # rest) = setScales (setScale c t t s) rest"

subsection \<open>Timers of a clock\<close>

text \<open>
  The value of a \<^verbatim>\<open>number\<close> expression that can be \<^verbatim>\<open>NaN\<close>: \<^verbatim>\<open>performance.now() - undefined\<close>
  is \<^verbatim>\<open>NaN\<close>, and so is every product with it.
\<close>

datatype number = Num real | NaN

text \<open>\<^verbatim>\<open>constructor(clock, name){ this.clock = clock; this.name = name; }\<close>\<close>

definition newTimer :: "string \<Rightarrow> Timer" where
  "newTimer n = \<lparr>name = n, timestamp = None\<rparr>"

text \<open>\<^verbatim>\<open>start(): Timer { this.timestamp = performance.now(); return this; }\<close>\<close>

definition Timer_start :: "Timer \<Rightarrow> real \<Rightarrow> Timer" where
  "Timer_start tm now = tm\<lparr>timestamp := Some now\<rparr>"

text \<open>
  \<^verbatim>\<open>getDelta(): number { const now = performance.now();
      const delta = this.clock.scale * (now - this.timestamp);
      this.timestamp = now; return delta; }\<close>
  The result is the delta and the timer after the call; \<open>c\<close> is \<^verbatim>\<open>this.clock\<close>.
\<close>

definition Timer_getDelta :: "Clock \<Rightarrow> Timer \<Rightarrow> real \<Rightarrow> number \<times> Timer" where
  "Timer_getDelta c tm now =
     ((case timestamp tm of None \<Rightarrow> NaN | Some ts \<Rightarrow> Num (scale c * (now - ts))),
      tm\<lparr>timestamp := Some now\<rparr>)"

text \<open>
  \<^verbatim>\<open>createTimer(timerId) { const timer = new Timer(this, timerId);
      this.timers.set(timerId, timer); return timer; }\<close>
\<close>

definition createTimer :: "Clock \<Rightarrow> string \<Rightarrow> Timer \<times> Clock" where
  "createTimer c timerId =
     (let timer = newTimer timerId in (timer, c\<lparr>timers := (timers c)(timerId \<mapsto> timer)\<rparr>))"

text \<open>
  \<^verbatim>\<open>startTimer(timerId) { const timer = this.timers.get(timerId) || this.createTimer(timerId);
      return timer.start(); }\<close>
  The timer object is the one the map holds, so \<^verbatim>\<open>start()\<close> writes the map's entry.
\<close>

definition startTimer :: "Clock \<Rightarrow> string \<Rightarrow> real \<Rightarrow> Timer \<times> Clock" where
  "startTimer c timerId now =
     (let (timer, c1) = (case timers c timerId of
                           Some tm \<Rightarrow> (tm, c)
                         | None \<Rightarrow> createTimer c timerId);
          started = Timer_start timer now
      in (started, c1\<lparr>timers := (timers c1)(timerId \<mapsto> started)\<rparr>))"

text \<open>
  \<^verbatim>\<open>getDelta(timerId: string=""): number | undefined {
      return this.timers.get(timerId)?.getDelta(); }\<close>
  \<open>None\<close> as the argument is the omitted \<^verbatim>\<open>timerId\<close>; \<open>None\<close> as the result is \<^verbatim>\<open>undefined\<close>.
\<close>

definition Clock_getDelta :: "Clock \<Rightarrow> string option \<Rightarrow> real \<Rightarrow> number option \<times> Clock" where
  "Clock_getDelta c arg now =
     (let timerId = (case arg of None \<Rightarrow> [] | Some i \<Rightarrow> i) in
      case timers c timerId of
        None \<Rightarrow> (None, c)
      | Some tm \<Rightarrow>
          (let (delta, tm1) = Timer_getDelta c tm now
           in (Some delta, c\<lparr>timers := (timers c)(timerId \<mapsto> tm1)\<rparr>)))"

subsection \<open>The periodic time publisher\<close>

text \<open>
  \<^verbatim>\<open>enableTimePublisher\<close> calls the platform: \<^verbatim>\<open>setInterval\<close>, \<^verbatim>\<open>clearTimeout\<close> and
  \<^verbatim>\<open>PubSub.publish\<close>. The platform's part of the state is written out: the handles of the
  live intervals this clock created (\<open>activeTimers\<close>), the number of handles issued so far
  (\<open>issued\<close>; a handle is a number greater than zero) and the payloads published to
  \<^verbatim>\<open>SYSTEM_TIME_TOPIC\<close>, oldest first. \<^verbatim>\<open>clearTimeout\<close> removes a handle from the same table
  as \<^verbatim>\<open>clearInterval\<close> does, and a callback runs only while its handle is in the table.
\<close>

record World =
  clock :: Clock
  activeTimers :: "nat set"
  issued :: nat
  published :: "real list"

definition setInterval :: "World \<Rightarrow> nat \<times> World" where
  "setInterval w =
     (let h = Suc (issued w) in (h, w\<lparr>activeTimers := insert h (activeTimers w), issued := h\<rparr>))"

definition clearTimeout :: "World \<Rightarrow> nat \<Rightarrow> World" where
  "clearTimeout w h = w\<lparr>activeTimers := activeTimers w - {h}\<rparr>"

text \<open>The truth value of \<^verbatim>\<open>this.timePublisherId\<close>: \<^verbatim>\<open>undefined\<close> and \<^verbatim>\<open>0\<close> are false.\<close>

definition truthyId :: "nat option \<Rightarrow> bool" where
  "truthyId i = (case i of None \<Rightarrow> False | Some h \<Rightarrow> h \<noteq> 0)"

text \<open>
  \<^verbatim>\<open>enableTimePublisher(isEnabled){
      if(isEnabled){ if(this.timePublisherId){ return; }
          this.timePublisherId = setInterval(() => {
              PubSub.publish(SYSTEM_TIME_TOPIC, this.getTime()) }, 1000);
      } else { if (!this.timePublisherId){ return; }
          clearTimeout(this.timePublisherId); this.timePublisherId = undefined; } }\<close>
\<close>

definition enableTimePublisher :: "World \<Rightarrow> bool \<Rightarrow> World" where
  "enableTimePublisher w isEnabled =
     (if isEnabled then
        (if truthyId (timePublisherId (clock w)) then w
         else (let (h, w1) = setInterval w
               in w1\<lparr>clock := (clock w1)\<lparr>timePublisherId := Some h\<rparr>\<rparr>))
      else
        (if \<not> truthyId (timePublisherId (clock w)) then w
         else (case timePublisherId (clock w) of
                 None \<Rightarrow> w
               | Some h \<Rightarrow>
                   (let w1 = clearTimeout w h
                    in w1\<lparr>clock := (clock w1)\<lparr>timePublisherId := None\<rparr>\<rparr>))))"

text \<open>
  The interval's callback \<^verbatim>\<open>() => { PubSub.publish(SYSTEM_TIME_TOPIC, this.getTime()) }\<close>,
  and the platform running the callback of handle \<open>h\<close> at the time \<open>now\<close>: a tick that was
  scheduled before the handle was cleared and arrives after it finds the handle gone.
\<close>

definition publishTime :: "World \<Rightarrow> real \<Rightarrow> World" where
  "publishTime w now = w\<lparr>published := published w @ [getTime (clock w) now]\<rparr>"

definition tick :: "World \<Rightarrow> nat \<Rightarrow> real \<Rightarrow> World" where
  "tick w h now = (if h \<in> activeTimers w then publishTime w now else w)"

text \<open>The world of a clock that has just been constructed: no interval, nothing published.\<close>

definition newWorld :: "real option \<Rightarrow> real \<Rightarrow> real \<Rightarrow> World" where
  "newWorld arg now1 now2 =
     \<lparr>clock = newClock arg now1 now2, activeTimers = {}, issued = 0, published = []\<rparr>"

text \<open>
  What can happen to a clock and its publisher, in any order: ticks of any handle at any
  time, and calls of the clock's methods.
\<close>

datatype event =
    Tick nat real
  | Enable bool
  | SetTime real real
  | SetScale real real real
  | SetPaused real real bool
  | CreateTimer string
  | StartTimer string real
  | GetDelta "string option" real

fun step :: "World \<Rightarrow> event \<Rightarrow> World" where
  "step w (Tick h now) = tick w h now"
| "step w (Enable b) = enableTimePublisher w b"
| "step w (SetTime now x) = w\<lparr>clock := setTime (clock w) now x\<rparr>"
| "step w (SetScale n1 n2 s) = w\<lparr>clock := setScale (clock w) n1 n2 s\<rparr>"
| "step w (SetPaused n1 n2 v) = w\<lparr>clock := setPaused (clock w) n1 n2 v\<rparr>"
| "step w (CreateTimer i) = w\<lparr>clock := snd (createTimer (clock w) i)\<rparr>"
| "step w (StartTimer i now) = w\<lparr>clock := snd (startTimer (clock w) i now)\<rparr>"
| "step w (GetDelta i now) = w\<lparr>clock := snd (Clock_getDelta (clock w) i now)\<rparr>"

definition run :: "World \<Rightarrow> event list \<Rightarrow> World" where
  "run w es = foldl step w es"

text \<open>
  The publisher's handle and the table of live intervals agree: the clock holds no handle
  and no interval is live, or it holds the handle of the one live interval.
\<close>

definition publisherInv :: "World \<Rightarrow> bool" where
  "publisherInv w =
     (case timePublisherId (clock w) of
        None \<Rightarrow> activeTimers w = {}
      | Some h \<Rightarrow> h \<noteq> 0 \<and> activeTimers w = {h})"

text \<open>
  The clocks that the constructor and the methods of \<^verbatim>\<open>Clock\<close> can produce.
\<close>

inductive reachable :: "Clock \<Rightarrow> bool" where
  reach_new: "reachable (newClock arg now1 now2)"
| reach_step: "reachable (clock w) \<Longrightarrow> reachable (clock (step w e))"

subsection \<open>throttle\<close>

text \<open>
  \<^verbatim>\<open>function throttle(threshold, scope, fn) {
      let last = undefined; let timeoutId = undefined;
      return function (...args) {
          const context = scope || this;
          const now = new Date().getTime();
          last = last || now - threshold;
          clearTimeout(timeoutId);
          timeoutId = setTimeout(() => { last = now; fn.apply(context, args); },
                                 threshold - (now - last)); }; }\<close>
  (the same text in \<^verbatim>\<open>throttler.ts\<close> and in \<^verbatim>\<open>timing.ts\<close>).

  The closure's state: \<open>lastTime\<close> is \<^verbatim>\<open>last\<close> (\<open>None\<close> is \<^verbatim>\<open>undefined\<close>); \<open>timeout\<close> is the one
  timeout that can be pending, since every call clears the one before: the earliest time at
  which the platform may run it (\<open>due\<close>), the \<^verbatim>\<open>now\<close> and the \<^verbatim>\<open>args\<close> its callback captured.
  \<open>invocations\<close> lists the calls of \<^verbatim>\<open>fn\<close> made so far, oldest first, each with the time at
  which it ran and its arguments.
\<close>

record 'a Pending =
  due :: real
  capturedNow :: real
  args :: 'a

record 'a Throttle =
  threshold :: real
  lastTime :: "real option"
  timeout :: "'a Pending option"
  invocations :: "(real \<times> 'a) list"

definition throttle :: "real \<Rightarrow> 'a Throttle" where
  "throttle T = \<lparr>threshold = T, lastTime = None, timeout = None, invocations = []\<rparr>"

text \<open>
  A call of the wrapper at the time \<open>now\<close>. \<^verbatim>\<open>last || now - threshold\<close> keeps \<^verbatim>\<open>last\<close> unless it is
  \<^verbatim>\<open>undefined\<close> or \<^verbatim>\<open>0\<close>. \<^verbatim>\<open>setTimeout\<close> with a delay below zero waits zero.
\<close>

definition wrapper :: "'a Throttle \<Rightarrow> real \<Rightarrow> 'a \<Rightarrow> 'a Throttle" where
  "wrapper th now a =
     (let l = (case lastTime th of
                 None \<Rightarrow> now - threshold th
               | Some x \<Rightarrow> if x \<noteq> 0 then x else now - threshold th);
          delay = threshold th - (now - l)
      in th\<lparr>lastTime := Some l,
            timeout := Some \<lparr>due = now + max 0 delay, capturedNow = now, args = a\<rparr>\<rparr>)"

text \<open>
  The platform reaches the time \<open>t\<close> with the event loop free: a pending timeout that is
  due runs \<^verbatim>\<open>last = now; fn.apply(context, args)\<close> with the \<^verbatim>\<open>now\<close> and \<^verbatim>\<open>args\<close> it captured.
\<close>

definition expire :: "'a Throttle \<Rightarrow> real \<Rightarrow> 'a Throttle" where
  "expire th t =
     (case timeout th of
        None \<Rightarrow> th
      | Some p \<Rightarrow>
          if due p \<le> t
          then th\<lparr>lastTime := Some (capturedNow p), timeout := None,
                  invocations := invocations th @ [(t, args p)]\<rparr>
          else th)"

datatype 'a action = Invoke real 'a | Expire real

fun act :: "'a Throttle \<Rightarrow> 'a action \<Rightarrow> 'a Throttle" where
  "act th (Invoke now a) = wrapper th now a"
| "act th (Expire t) = expire th t"

definition play :: "'a Throttle \<Rightarrow> 'a action list \<Rightarrow> 'a Throttle" where
  "play th as = foldl act th as"

text \<open>
  For stating what a run of actions does: the time of an action, the latest call of the
  wrapper among the actions (\<open>None\<close> when there is none), and a list of calls made one after
  the other, each a pair of the time and the arguments.
\<close>

fun actionTime :: "'a action \<Rightarrow> real" where
  "actionTime (Invoke now a) = now"
| "actionTime (Expire t) = t"

fun latestCall :: "'a action list \<Rightarrow> (real \<times> 'a) option" where
  "latestCall [] = None"
| "latestCall (x # xs) =
     (case latestCall xs of
        Some c \<Rightarrow> Some c
      | None \<Rightarrow> (case x of Invoke now a \<Rightarrow> Some (now, a) | Expire t \<Rightarrow> None))"

definition invokeAll :: "(real \<times> 'a) list \<Rightarrow> 'a action list" where
  "invokeAll cs = map (\<lambda>(now, a). Invoke now a) cs"

subsection \<open>Time units\<close>

text \<open>
  \<^verbatim>\<open>enum TimeUnit { Milliseconds, Seconds, Minutes, Hours, Days }\<close> is a numeric enum: its
  members are the numbers 0 to 4, and a value of the type is a number at run time.
\<close>

type_synonym TimeUnit = int

definition Milliseconds :: TimeUnit where "Milliseconds = 0"
definition Seconds :: TimeUnit where "Seconds = 1"
definition Minutes :: TimeUnit where "Minutes = 2"
definition Hours :: TimeUnit where "Hours = 3"
definition Days :: TimeUnit where "Days = 4"

text \<open>\<^verbatim>\<open>throw new Error()\<close>: the one exception of the module.\<close>

datatype error = Error

text \<open>
  \<^verbatim>\<open>function convert(units, unit = TimeUnit.Milliseconds, op) {
      switch (unit) { case TimeUnit.Milliseconds: return units;
                      case TimeUnit.Seconds: return op(units, 1000.0);
                      case TimeUnit.Minutes: return op(units, 60000.0);
                      case TimeUnit.Hours: return op(units, 3600000.0);
                      case TimeUnit.Days: return op(units, 86400000.0);
                      default: throw new Error() } }\<close>
  \<open>None\<close> is an omitted (\<^verbatim>\<open>undefined\<close>) unit, which takes the default.
\<close>

definition unitOrDefault :: "TimeUnit option \<Rightarrow> TimeUnit" where
  "unitOrDefault u = (case u of None \<Rightarrow> Milliseconds | Some x \<Rightarrow> x)"

definition convert :: "real \<Rightarrow> TimeUnit option \<Rightarrow> (real \<Rightarrow> real \<Rightarrow> real) \<Rightarrow> error + real" where
  "convert units u op =
     (let unit = unitOrDefault u in
      if unit = Milliseconds then Inr units
      else if unit = Seconds then Inr (op units 1000)
      else if unit = Minutes then Inr (op units 60000)
      else if unit = Hours then Inr (op units 3600000)
      else if unit = Days then Inr (op units 86400000)
      else Inl Error)"

text \<open>
  \<^verbatim>\<open>timeMsToUnits(timeMs, unit = TimeUnit.Milliseconds) {
      return convert(timeMs, unit, (ms, div) => ms / div); }\<close>
  \<^verbatim>\<open>unitsToMs(units, baseUnit = TimeUnit.Milliseconds) {
      return convert(units, baseUnit, (units, mult) => units * mult); }\<close>
\<close>

definition timeMsToUnits :: "real \<Rightarrow> TimeUnit option \<Rightarrow> error + real" where
  "timeMsToUnits timeMs u = convert timeMs (Some (unitOrDefault u)) (\<lambda>ms d. ms / d)"

definition unitsToMs :: "real \<Rightarrow> TimeUnit option \<Rightarrow> error + real" where
  "unitsToMs units u = convert units (Some (unitOrDefault u)) (\<lambda>units mult. units * mult)"

subsection \<open>Doubles\<close>

text \<open>
  A finite double is a real number \<open>n * 2 ^ k\<close> with an integer \<open>n\<close> of at most 53 bits. \<open>fl\<close>
  rounds a real number to the nearest double, a tie going to the even significand, as IEEE-754
  does in its default mode: \<open>expo x\<close> is the binary exponent of \<open>x\<close>, \<open>ulp x\<close> the distance
  between neighbouring doubles at \<open>x\<close>, and \<open>rne\<close> rounds to the nearest integer, a tie going
  to the even one. The exponent is not bounded here: a result that overflows to
  \<^verbatim>\<open>Infinity\<close> or falls below \<open>2 ^ -1022\<close> in magnitude (where doubles lose precision) is not
  described. The operators \<^verbatim>\<open>+\<close>, \<^verbatim>\<open>-\<close>, \<^verbatim>\<open>*\<close>, \<^verbatim>\<open>/\<close> of the source on doubles are \<open>fadd\<close>,
  \<open>fsub\<close>, \<open>fmul\<close>, \<open>fdiv\<close>: the exact result, rounded.
\<close>

definition rne :: "real \<Rightarrow> int" where
  "rne y =
     (let f = \<lfloor>y\<rfloor>; d = y - of_int f in
      if d < 1 / 2 then f else if 1 / 2 < d then f + 1 else if even f then f else f + 1)"

definition expo :: "real \<Rightarrow> int" where
  "expo x = \<lfloor>log 2 \<bar>x\<bar>\<rfloor>"

definition ulp :: "real \<Rightarrow> real" where
  "ulp x = 2 powr (of_int (expo x) - 52)"

definition fl :: "real \<Rightarrow> real" where
  "fl x = (if x = 0 then 0 else of_int (rne (x / ulp x)) * ulp x)"

definition isDouble :: "real \<Rightarrow> bool" where
  "isDouble x = (fl x = x)"

definition fadd :: "real \<Rightarrow> real \<Rightarrow> real" where
  "fadd x y = fl (x + y)"

definition fsub :: "real \<Rightarrow> real \<Rightarrow> real" where
  "fsub x y = fl (x - y)"

definition fmul :: "real \<Rightarrow> real \<Rightarrow> real" where
  "fmul x y = fl (x * y)"

definition fdiv :: "real \<Rightarrow> real \<Rightarrow> real" where
  "fdiv x y = fl (x / y)"

subsection \<open>Time periods\<close>

text \<open>
  Modelled from the spec: the type \<^verbatim>\<open>TimePeriod\<close> of \<^verbatim>\<open>domain/models\<close>, which is not among the
  sources: a structured period with the optional components days, hours, minutes, seconds
  and millis. \<open>None\<close> is an absent component.
\<close>

record TimePeriod =
  days :: "real option"
  hours :: "real option"
  minutes :: "real option"
  seconds :: "real option"
  millis :: "real option"

definition emptyPeriod :: TimePeriod where
  "emptyPeriod = \<lparr>days = None, hours = None, minutes = None, seconds = None, millis = None\<rparr>"

text \<open>
  \<^verbatim>\<open>function timePeriodToMs(timePeriod) {
      const daysToMillis = (days?) => days? days * hoursToMillis(24) : 0
      const hoursToMillis = (hours?) => hours? hours * minutesToMillis(60) : 0;
      const minutesToMillis = (minutes?) => minutes? minutes * secondsToMillis(60): 0;
      const secondsToMillis = (seconds?) => seconds? seconds * 1000: 0;
      const millisToMills = (millis?) => millis? millis : 0;
      return daysToMillis(timePeriod.days) + hoursToMillis(timePeriod.hours)
           + minutesToMillis(timePeriod.minutes) + secondsToMillis(timePeriod.seconds)
           + millisToMills(timePeriod.millis); }\<close>
  A component is false in a condition when it is absent or \<open>0\<close>. The sum associates to the
  left.
\<close>

definition secondsToMillis :: "real option \<Rightarrow> real" where
  "secondsToMillis x =
     (case x of None \<Rightarrow> 0 | Some v \<Rightarrow> if v \<noteq> 0 then fmul v 1000 else 0)"

definition minutesToMillis :: "real option \<Rightarrow> real" where
  "minutesToMillis x =
     (case x of None \<Rightarrow> 0
      | Some v \<Rightarrow> if v \<noteq> 0 then fmul v (secondsToMillis (Some 60)) else 0)"

definition hoursToMillis :: "real option \<Rightarrow> real" where
  "hoursToMillis x =
     (case x of None \<Rightarrow> 0
      | Some v \<Rightarrow> if v \<noteq> 0 then fmul v (minutesToMillis (Some 60)) else 0)"

definition daysToMillis :: "real option \<Rightarrow> real" where
  "daysToMillis x =
     (case x of None \<Rightarrow> 0
      | Some v \<Rightarrow> if v \<noteq> 0 then fmul v (hoursToMillis (Some 24)) else 0)"

definition millisToMills :: "real option \<Rightarrow> real" where
  "millisToMills x = (case x of None \<Rightarrow> 0 | Some v \<Rightarrow> if v \<noteq> 0 then v else 0)"

definition timePeriodToMs :: "TimePeriod \<Rightarrow> real" where
  "timePeriodToMs timePeriod =
     fadd (fadd (fadd (fadd (daysToMillis (days timePeriod)) (hoursToMillis (hours timePeriod)))
                      (minutesToMillis (minutes timePeriod)))
                (secondsToMillis (seconds timePeriod)))
          (millisToMills (millis timePeriod))"

text \<open>
  \<^verbatim>\<open>function unitsToTimePeriod(units, baseUnit = TimeUnit.Milliseconds) {
      const period: TimePeriod = {};
      const ms = unitsToMs(units, baseUnit);
      period.days = ms/timePeriodToMs({days:1})
      period.hours = (ms - timePeriodToMs(period))/timePeriodToMs({hours:1})
      period.minutes = (ms - timePeriodToMs(period))/timePeriodToMs({minutes:1})
      period.seconds = (ms - timePeriodToMs(period))/timePeriodToMs({seconds:1})
      period.millis = (ms - timePeriodToMs(period))/timePeriodToMs({millis:1})
      return period; }\<close>
  \<open>unitsToMs\<close> above gives the exact product; the double that the source's \<^verbatim>\<open>unitsToMs\<close> returns
  is that product rounded (for the default unit, the double \<^verbatim>\<open>units\<close> itself).
\<close>

definition unitsToTimePeriod :: "real \<Rightarrow> TimeUnit option \<Rightarrow> error + TimePeriod" where
  "unitsToTimePeriod units baseUnit =
     (case unitsToMs units baseUnit of
        Inl e \<Rightarrow> Inl e
      | Inr exact \<Rightarrow>
          (let ms = fl exact;
               p0 = emptyPeriod;
               p1 = p0\<lparr>days := Some (fdiv ms (timePeriodToMs (emptyPeriod\<lparr>days := Some 1\<rparr>)))\<rparr>;
               p2 = p1\<lparr>hours := Some (fdiv (fsub ms (timePeriodToMs p1))
                                          (timePeriodToMs (emptyPeriod\<lparr>hours := Some 1\<rparr>)))\<rparr>;
               p3 = p2\<lparr>minutes := Some (fdiv (fsub ms (timePeriodToMs p2))
                                          (timePeriodToMs (emptyPeriod\<lparr>minutes := Some 1\<rparr>)))\<rparr>;
               p4 = p3\<lparr>seconds := Some (fdiv (fsub ms (timePeriodToMs p3))
                                          (timePeriodToMs (emptyPeriod\<lparr>seconds := Some 1\<rparr>)))\<rparr>;
               p5 = p4\<lparr>millis := Some (fdiv (fsub ms (timePeriodToMs p4))
                                          (timePeriodToMs (emptyPeriod\<lparr>millis := Some 1\<rparr>)))\<rparr>
           in Inr p5))"

text \<open>The value that a component contributes to a sum: \<open>0\<close> when it is absent.\<close>

definition orZero :: "real option \<Rightarrow> real" where
  "orZero x = (case x of None \<Rightarrow> 0 | Some v \<Rightarrow> v)"

text \<open>
  The magnitudes for which the period conversions are stated: \<open>0\<close>, and the numbers between
  \<open>2 ^ -900\<close> and \<open>2 ^ 900\<close>. With operands in this range no product, quotient, sum or
  difference of the conversions overflows, and none but an exact \<open>0\<close> falls below \<open>2 ^ -1022\<close>.
\<close>

definition inRange :: "real \<Rightarrow> bool" where
  "inRange x = (x = 0 \<or> 1 / 2 ^ 900 \<le> \<bar>x\<bar> \<and> \<bar>x\<bar> \<le> 2 ^ 900)"


section \<open>Clock: continuity, pause and resume\<close>

lemma getTime_setScale_same_instant:
  "getTime (setScale c t t s) t = getTime c t"
  by (simp add: setScale_def setTime_def getTime_def)

lemma getTime_setScale_running:
  "\<not> isPaused c \<Longrightarrow> getTime (setScale c t t s) (t + d) = getTime c t + s * d"
  by (simp add: setScale_def setTime_def getTime_def)

lemma getTime_setScale_paused:
  "isPaused c \<Longrightarrow> getTime (setScale c a b s) t = getTime c t"
  by (simp add: setScale_def getTime_def)

lemma setScales_append:
  "setScales c (xs @ ys) = setScales (setScales c xs) ys"
  by (induction xs arbitrary: c) auto

lemma isPaused_setScale [simp]: "isPaused (setScale c a b s) = isPaused c"
  by (simp add: setScale_def setTime_def)

lemma isPaused_setTime [simp]: "isPaused (setTime c a x) = isPaused c"
  by (simp add: setTime_def)

lemma isPaused_setScales [simp]: "isPaused (setScales c xs) = isPaused c"
proof (induction xs arbitrary: c)
  case Nil
  show ?case by simp
next
  case (Cons x xs)
  obtain t s where x: "x = (t, s)" by (cases x)
  show ?case by (simp add: x Cons.IH)
qed

text \<open>
  Claim C1. At the instant \<open>t\<close> of a \<^verbatim>\<open>setScale\<close> call, \<^verbatim>\<open>getTime()\<close> returns the same value
  before and after the call, for every clock and after every run \<open>pre\<close> of earlier scale
  changes. On a clock that is not paused the time then advances at the new rate \<open>s\<close> from that
  value, and in the scenario \<^verbatim>\<open>setTime(0); setScale(2)\<close> at \<open>t0\<close>, \<^verbatim>\<open>getTime()\<close> is \<open>2 * D\<close> after
  \<open>D\<close> of real time, and \<open>2 * D - D2\<close> after \<^verbatim>\<open>setScale(-1)\<close> there and \<open>D2\<close> more.
\<close>

theorem C1_scale_change_continuity:
  "getTime (setScales c (pre @ [(t, s)])) t = getTime (setScales c pre) t
   \<and> (\<not> isPaused c \<longrightarrow>
        getTime (setScales c (pre @ [(t, s)])) (t + d) = getTime (setScales c pre) t + s * d
      \<and> getTime (setScale (setTime c t0 0) t0 t0 2) (t0 + D) = 2 * D
      \<and> getTime (setScale (setScale (setTime c t0 0) t0 t0 2) (t0 + D) (t0 + D) (- 1))
           (t0 + D + D2) = 2 * D - D2)"
proof (intro conjI impI)
  show "getTime (setScales c (pre @ [(t, s)])) t = getTime (setScales c pre) t"
    by (simp add: setScales_append getTime_setScale_same_instant)
next
  assume run: "\<not> isPaused c"
  then show "getTime (setScales c (pre @ [(t, s)])) (t + d) = getTime (setScales c pre) t + s * d"
    by (simp add: setScales_append getTime_setScale_running)
  from run show "getTime (setScale (setTime c t0 0) t0 t0 2) (t0 + D) = 2 * D"
    by (simp add: setScale_def setTime_def getTime_def)
  from run show "getTime (setScale (setScale (setTime c t0 0) t0 t0 2) (t0 + D) (t0 + D) (- 1))
           (t0 + D + D2) = 2 * D - D2"
    by (simp add: setScale_def setTime_def getTime_def)
qed

theorem C1_scale_change_continuity_witness:
  "\<not> isPaused (newClock None 1000 1000)
   \<and> getTime (setScales (newClock None 1000 1000) ([(1010, 3)] @ [(1020, 1 / 2)])) 1020
       = getTime (setScales (newClock None 1000 1000) [(1010, 3)]) 1020
   \<and> getTime (setScales (newClock None 1000 1000) ([(1010, 3)] @ [(1020, 1 / 2)])) (1020 + 8)
       = getTime (setScales (newClock None 1000 1000) [(1010, 3)]) 1020 + 1 / 2 * 8
   \<and> getTime (setScale (setTime (newClock None 1000 1000) 2000 0) 2000 2000 2) (2000 + 5) = 2 * 5
   \<and> getTime (setScale (setScale (setTime (newClock None 1000 1000) 2000 0) 2000 2000 2)
         (2000 + 5) (2000 + 5) (- 1)) (2000 + 5 + 3) = 2 * 5 - 3"
proof -
  have run: "\<not> isPaused (newClock None 1000 1000)"
    by (simp add: newClock_def)
  note th = C1_scale_change_continuity
              [of "newClock None 1000 1000" "[(1010, 3)]" 1020 "1 / 2" 8 2000 5 3]
  from th have first:
    "getTime (setScales (newClock None 1000 1000) ([(1010, 3)] @ [(1020, 1 / 2)])) 1020
       = getTime (setScales (newClock None 1000 1000) [(1010, 3)]) 1020"
    by (rule conjunct1)
  note rest = th [THEN conjunct2, THEN mp, OF run]
  show ?thesis
    by (rule conjI [OF run conjI [OF first rest]])
qed

lemma getTime_setPaused_frozen:
  "\<not> isPaused c \<Longrightarrow> getTime (setPaused c t t True) t' = getTime c t"
  by (simp add: setPaused_def setScale_def setTime_def getTime_def Let_def)

lemma setPaused_True_fields:
  "\<not> isPaused c \<Longrightarrow>
     isPaused (setPaused c t t True) \<and> scale (setPaused c t t True) = 0
     \<and> savedScale (setPaused c t t True) = scale c"
  by (simp add: setPaused_def setScale_def setTime_def Let_def)

lemma setPaused_True_paused:
  "isPaused c \<Longrightarrow> setPaused c a b True = c"
  by (simp add: setPaused_def)

lemma getTime_resume:
  "isPaused c \<Longrightarrow>
     getTime (setPaused c u u False) (u + d) = getTime c u + savedScale c * d"
  by (simp add: setPaused_def setScale_def setTime_def getTime_def Let_def)

lemma resume_fields:
  "isPaused c \<Longrightarrow>
     \<not> isPaused (setPaused c u u False) \<and> scale (setPaused c u u False) = savedScale c"
  by (simp add: setPaused_def setScale_def setTime_def Let_def)

text \<open>
  Claim C2. On a clock that is not paused and runs at the scale \<open>S = scale c\<close>,
  \<^verbatim>\<open>setPaused(true)\<close> at the instant \<open>t\<close> freezes \<^verbatim>\<open>getTime()\<close>: at every later read \<open>t'\<close> it
  returns the value it had at \<open>t\<close>. \<^verbatim>\<open>setPaused(false)\<close> at \<open>u\<close> resumes from that value at the
  rate \<open>S\<close>, whatever the length of the pause. A second \<^verbatim>\<open>setPaused(true)\<close> leaves the clock as
  the first one left it.
\<close>

theorem C2_pause_freeze_resume:
  "\<not> isPaused c \<Longrightarrow>
     isPaused (setPaused c t t True)
     \<and> getTime (setPaused c t t True) t' = getTime c t
     \<and> getScale (setPaused c t t True) = scale c
     \<and> \<not> isPaused (setPaused (setPaused c t t True) u u False)
     \<and> scale (setPaused (setPaused c t t True) u u False) = scale c
     \<and> getTime (setPaused (setPaused c t t True) u u False) (u + d) = getTime c t + scale c * d
     \<and> setPaused (setPaused c t t True) a b True = setPaused c t t True"
proof -
  assume run: "\<not> isPaused c"
  let ?p = "setPaused c t t True"
  from run have p: "isPaused ?p" "scale ?p = 0" "savedScale ?p = scale c"
    using setPaused_True_fields [of c t] by simp_all
  have frozen: "\<And>x. getTime ?p x = getTime c t"
    using run by (rule getTime_setPaused_frozen)
  have "getTime (setPaused ?p u u False) (u + d) = getTime ?p u + savedScale ?p * d"
    using p(1) by (rule getTime_resume)
  then have resumed: "getTime (setPaused ?p u u False) (u + d) = getTime c t + scale c * d"
    by (simp add: frozen p(3))
  have r: "\<not> isPaused (setPaused ?p u u False)" "scale (setPaused ?p u u False) = scale c"
    using resume_fields [OF p(1), of u] p(3) by simp_all
  have idem: "setPaused ?p a b True = ?p"
    using p(1) by (rule setPaused_True_paused)
  have gs: "getScale ?p = scale c"
    by (simp add: getScale_def p)
  from p(1) frozen gs r resumed idem show ?thesis by simp
qed


theorem C2_pause_freeze_resume_witness:
  "\<not> isPaused (newClock (Some 0) 1000 1000)
   \<and> isPaused (setPaused (newClock (Some 0) 1000 1000) 1500 1500 True)
   \<and> getTime (setPaused (newClock (Some 0) 1000 1000) 1500 1500 True) 9000
       = getTime (newClock (Some 0) 1000 1000) 1500
   \<and> getScale (setPaused (newClock (Some 0) 1000 1000) 1500 1500 True)
       = scale (newClock (Some 0) 1000 1000)
   \<and> \<not> isPaused (setPaused (setPaused (newClock (Some 0) 1000 1000) 1500 1500 True) 9000 9000 False)
   \<and> scale (setPaused (setPaused (newClock (Some 0) 1000 1000) 1500 1500 True) 9000 9000 False)
       = scale (newClock (Some 0) 1000 1000)
   \<and> getTime (setPaused (setPaused (newClock (Some 0) 1000 1000) 1500 1500 True) 9000 9000 False)
         (9000 + 250)
       = getTime (newClock (Some 0) 1000 1000) 1500 + scale (newClock (Some 0) 1000 1000) * 250
   \<and> setPaused (setPaused (newClock (Some 0) 1000 1000) 1500 1500 True) 1600 1600 True
       = setPaused (newClock (Some 0) 1000 1000) 1500 1500 True"
proof -
  have run: "\<not> isPaused (newClock (Some 0) 1000 1000)"
    by (simp add: newClock_def)
  show ?thesis
    by (rule conjI [OF run
          C2_pause_freeze_resume [OF run, of 1500 9000 9000 250 1600 1600]])
qed

lemma startTimer_fields [simp]:
  "isPaused (snd (startTimer c i now)) = isPaused c"
  "scale (snd (startTimer c i now)) = scale c"
  "savedScale (snd (startTimer c i now)) = savedScale c"
  "clockTimeMs (snd (startTimer c i now)) = clockTimeMs c"
  "realTimestampMs (snd (startTimer c i now)) = realTimestampMs c"
  "timePublisherId (snd (startTimer c i now)) = timePublisherId c"
  by (simp_all add: startTimer_def createTimer_def Let_def split: option.splits prod.splits)

lemma createTimer_fields [simp]:
  "isPaused (snd (createTimer c i)) = isPaused c"
  "scale (snd (createTimer c i)) = scale c"
  "timePublisherId (snd (createTimer c i)) = timePublisherId c"
  by (simp_all add: createTimer_def Let_def)

lemma Clock_getDelta_fields [simp]:
  "isPaused (snd (Clock_getDelta c i now)) = isPaused c"
  "scale (snd (Clock_getDelta c i now)) = scale c"
  "savedScale (snd (Clock_getDelta c i now)) = savedScale c"
  "clockTimeMs (snd (Clock_getDelta c i now)) = clockTimeMs c"
  "realTimestampMs (snd (Clock_getDelta c i now)) = realTimestampMs c"
  "timePublisherId (snd (Clock_getDelta c i now)) = timePublisherId c"
  by (simp_all add: Clock_getDelta_def Timer_getDelta_def Let_def split: option.splits prod.splits)

lemma enableTimePublisher_fields [simp]:
  "isPaused (clock (enableTimePublisher w b)) = isPaused (clock w)"
  "scale (clock (enableTimePublisher w b)) = scale (clock w)"
  "savedScale (clock (enableTimePublisher w b)) = savedScale (clock w)"
  "clockTimeMs (clock (enableTimePublisher w b)) = clockTimeMs (clock w)"
  "realTimestampMs (clock (enableTimePublisher w b)) = realTimestampMs (clock w)"
  by (simp_all add: enableTimePublisher_def setInterval_def clearTimeout_def Let_def
        split: option.splits prod.splits)

lemma tick_clock [simp]: "clock (tick w h now) = clock w"
  by (simp add: tick_def publishTime_def)

lemma step_keeps_paused_frozen:
  "(isPaused (clock w) \<longrightarrow> scale (clock w) = 0) \<Longrightarrow>
     isPaused (clock (step w e)) \<longrightarrow> scale (clock (step w e)) = 0"
  by (cases e) (auto simp: setTime_def setScale_def setPaused_def Let_def)

lemma reachable_paused_scale: "reachable c \<Longrightarrow> isPaused c \<Longrightarrow> scale c = 0"
proof -
  assume "reachable c"
  then have "isPaused c \<longrightarrow> scale c = 0"
  proof (induction rule: reachable.induct)
    case (reach_new arg now1 now2)
    show ?case by (simp add: newClock_def)
  next
    case (reach_step w e)
    then show ?case by (simp add: step_keeps_paused_frozen)
  qed
  then show "isPaused c \<Longrightarrow> scale c = 0" by simp
qed

lemma reachable_setPaused: "reachable c \<Longrightarrow> reachable (setPaused c n1 n2 v)"
  using reach_step [of "\<lparr>clock = c, activeTimers = {}, issued = 0, published = []\<rparr>"
                       "SetPaused n1 n2 v"]
  by simp

lemma reachable_setScale: "reachable c \<Longrightarrow> reachable (setScale c n1 n2 s)"
  using reach_step [of "\<lparr>clock = c, activeTimers = {}, issued = 0, published = []\<rparr>"
                       "SetScale n1 n2 s"]
  by simp

text \<open>
  Claim C3. On a paused clock (one that the constructor and the methods produced),
  \<^verbatim>\<open>setScale(s)\<close> leaves \<^verbatim>\<open>getTime()\<close> at every instant \<open>t\<close> what it was, the frozen value
  \<open>clockTimeMs c\<close>; the clock stays paused and \<^verbatim>\<open>getScale()\<close> is \<open>s\<close>. A later
  \<^verbatim>\<open>setPaused(false)\<close> at \<open>u\<close> resumes from the frozen value at the rate \<open>s\<close>.
\<close>

theorem C3_setScale_while_paused:
  "reachable c \<Longrightarrow> isPaused c \<Longrightarrow>
     getTime (setScale c a b s) t = getTime c t
     \<and> getTime c t = clockTimeMs c
     \<and> isPaused (setScale c a b s)
     \<and> getScale (setScale c a b s) = s
     \<and> \<not> isPaused (setPaused (setScale c a b s) u u False)
     \<and> scale (setPaused (setScale c a b s) u u False) = s
     \<and> getTime (setPaused (setScale c a b s) u u False) (u + d) = clockTimeMs c + s * d"
proof -
  assume r: "reachable c" and p: "isPaused c"
  have z: "scale c = 0" using r p by (rule reachable_paused_scale)
  have frozen: "\<And>x. getTime c x = clockTimeMs c"
    by (simp add: getTime_def z)
  let ?q = "setScale c a b s"
  have q: "isPaused ?q" "savedScale ?q = s"
    using p by (simp_all add: setScale_def)
  have same: "\<And>x. getTime ?q x = getTime c x"
    using p by (rule getTime_setScale_paused)
  have res: "getTime (setPaused ?q u u False) (u + d) = getTime ?q u + savedScale ?q * d"
    using q(1) by (rule getTime_resume)
  have f: "\<not> isPaused (setPaused ?q u u False)" "scale (setPaused ?q u u False) = s"
    using resume_fields [OF q(1), of u] q(2) by simp_all
  have gs: "getScale ?q = s" by (simp add: getScale_def q p)
  from same frozen q(1) gs f res q(2) show ?thesis by simp
qed

theorem C3_setScale_while_paused_witness:
  "reachable (setPaused (newClock (Some 0) 1000 1000) 1500 1500 True)
   \<and> isPaused (setPaused (newClock (Some 0) 1000 1000) 1500 1500 True)
   \<and> getTime (setScale (setPaused (newClock (Some 0) 1000 1000) 1500 1500 True) 1600 1600 4) 1700
       = getTime (setPaused (newClock (Some 0) 1000 1000) 1500 1500 True) 1700
   \<and> getTime (setPaused (newClock (Some 0) 1000 1000) 1500 1500 True) 1700
       = clockTimeMs (setPaused (newClock (Some 0) 1000 1000) 1500 1500 True)
   \<and> isPaused (setScale (setPaused (newClock (Some 0) 1000 1000) 1500 1500 True) 1600 1600 4)
   \<and> getScale (setScale (setPaused (newClock (Some 0) 1000 1000) 1500 1500 True) 1600 1600 4) = 4
   \<and> \<not> isPaused (setPaused (setScale (setPaused (newClock (Some 0) 1000 1000) 1500 1500 True)
                     1600 1600 4) 2000 2000 False)
   \<and> scale (setPaused (setScale (setPaused (newClock (Some 0) 1000 1000) 1500 1500 True)
                     1600 1600 4) 2000 2000 False) = 4
   \<and> getTime (setPaused (setScale (setPaused (newClock (Some 0) 1000 1000) 1500 1500 True)
                     1600 1600 4) 2000 2000 False) (2000 + 10)
       = clockTimeMs (setPaused (newClock (Some 0) 1000 1000) 1500 1500 True) + 4 * 10"
proof -
  have r: "reachable (setPaused (newClock (Some 0) 1000 1000) 1500 1500 True)"
    by (rule reachable_setPaused [OF reach_new])
  have p: "isPaused (setPaused (newClock (Some 0) 1000 1000) 1500 1500 True)"
    by (simp add: setPaused_def newClock_def)
  show ?thesis
    by (rule conjI [OF r conjI [OF p
          C3_setScale_while_paused [OF r p, of 1600 1600 4 1700 2000 10]]])
qed

section \<open>Timers\<close>

lemma getTime_startTimer [simp]: "getTime (snd (startTimer c i now)) t = getTime c t"
  by (simp add: getTime_def)


text \<open>
  Claim C5 says that \<^verbatim>\<open>createTimer\<close> starts the timer it creates, so that \<^verbatim>\<open>getDelta()\<close> right
  after the creation is a number. On a clock constructed with the time \<open>0\<close>, the timer that
  \<^verbatim>\<open>createTimer("AnimationTimer")\<close> returns has no \<^verbatim>\<open>timestamp\<close>, and its first \<^verbatim>\<open>getDelta()\<close>
  is \<^verbatim>\<open>NaN\<close>.
\<close>

theorem C5_createTimer_not_started_counterexample:
  "timestamp (fst (createTimer (newClock (Some 0) 1000 1000) ''AnimationTimer'')) = None
   \<and> fst (Timer_getDelta (snd (createTimer (newClock (Some 0) 1000 1000) ''AnimationTimer''))
             (fst (createTimer (newClock (Some 0) 1000 1000) ''AnimationTimer'')) 5) = NaN
   \<and> fst (Clock_getDelta (snd (createTimer (newClock (Some 0) 1000 1000) ''AnimationTimer''))
             (Some ''AnimationTimer'') 5) = Some NaN"
  by (simp add: createTimer_def newTimer_def Timer_getDelta_def Clock_getDelta_def Let_def)

text \<open>
  Claim C5, as the code has it. \<^verbatim>\<open>createTimer(i)\<close> constructs a timer named \<open>i\<close>, registers it
  under \<open>i\<close> in place of any timer registered there, changes nothing else of the clock and
  returns the timer, which is not started: its \<^verbatim>\<open>timestamp\<close> is \<^verbatim>\<open>undefined\<close>, and the first
  \<^verbatim>\<open>getDelta()\<close> made on it, at any instant \<open>now\<close>, returns \<^verbatim>\<open>NaN\<close>. That call stores
  \<^verbatim>\<open>timestamp = now\<close>, so the next \<^verbatim>\<open>getDelta()\<close>, at \<open>later\<close>, returns the number
  \<open>scale * (later - now)\<close>. It is \<^verbatim>\<open>startTimer(i)\<close> that captures \<^verbatim>\<open>timestamp = now\<close> in the
  registered timer without a \<^verbatim>\<open>NaN\<close>; \<^verbatim>\<open>getDelta()\<close> at the same instant is then \<open>0\<close>.
\<close>

theorem C5_createTimer_registers_unstarted:
  "fst (createTimer c i) = newTimer i
   \<and> name (fst (createTimer c i)) = i
   \<and> timestamp (fst (createTimer c i)) = None
   \<and> timers (snd (createTimer c i)) = (timers c)(i \<mapsto> fst (createTimer c i))
   \<and> (snd (createTimer c i))\<lparr>timers := timers c\<rparr> = c
   \<and> fst (Timer_getDelta (snd (createTimer c i)) (fst (createTimer c i)) now) = NaN
   \<and> fst (Clock_getDelta (snd (createTimer c i)) (Some i) now) = Some NaN
   \<and> timestamp (snd (Timer_getDelta (snd (createTimer c i)) (fst (createTimer c i)) now)) = Some now
   \<and> fst (Timer_getDelta (snd (createTimer c i))
            (snd (Timer_getDelta (snd (createTimer c i)) (fst (createTimer c i)) now)) later)
       = Num (scale c * (later - now))
   \<and> fst (Clock_getDelta (snd (Clock_getDelta (snd (createTimer c i)) (Some i) now)) (Some i) later)
       = Some (Num (scale c * (later - now)))
   \<and> timestamp (fst (startTimer c i now)) = Some now
   \<and> timers (snd (startTimer c i now)) i = Some (fst (startTimer c i now))
   \<and> fst (Timer_getDelta (snd (startTimer c i now)) (fst (startTimer c i now)) now) = Num 0
   \<and> fst (Clock_getDelta (snd (startTimer c i now)) (Some i) now) = Some (Num 0)"
  by (simp add: createTimer_def newTimer_def Timer_getDelta_def Clock_getDelta_def Let_def
        startTimer_def Timer_start_def split: option.splits)

section \<open>Time units\<close>

lemma unitOrDefault_simps [simp]:
  "unitOrDefault (Some x) = x" "unitOrDefault None = Milliseconds"
  by (simp_all add: unitOrDefault_def)

lemma unitsToMs_default [simp]: "unitsToMs ms None = Inr ms"
  by (simp add: unitsToMs_def convert_def unitOrDefault_def)

lemma unitsToMs_Milliseconds [simp]: "unitsToMs ms (Some Milliseconds) = Inr ms"
  by (simp add: unitsToMs_def convert_def unitOrDefault_def)

text \<open>
  Claim C8. For every number \<open>x\<close>, \<^verbatim>\<open>timeMsToUnits\<close> and \<^verbatim>\<open>unitsToMs\<close> throw exactly when the unit
  is none of Milliseconds, Seconds, Minutes, Hours, Days (the numbers 0 to 4), and return a
  number otherwise. The two functions take and return numbers only: no clock is an argument
  or a result of a conversion.
\<close>

theorem C8_conversion_fails_iff_unit_unknown:
  "(timeMsToUnits x u = Inl Error
      \<longleftrightarrow> unitOrDefault u \<notin> {Milliseconds, Seconds, Minutes, Hours, Days})
   \<and> (unitsToMs x u = Inl Error
      \<longleftrightarrow> unitOrDefault u \<notin> {Milliseconds, Seconds, Minutes, Hours, Days})
   \<and> (isl (timeMsToUnits x u)
      \<longleftrightarrow> unitOrDefault u \<notin> {Milliseconds, Seconds, Minutes, Hours, Days})
   \<and> (isl (unitsToMs x u)
      \<longleftrightarrow> unitOrDefault u \<notin> {Milliseconds, Seconds, Minutes, Hours, Days})
   \<and> {Milliseconds, Seconds, Minutes, Hours, Days} = {0, 1, 2, 3, 4}"
  by (auto simp: timeMsToUnits_def unitsToMs_def convert_def Let_def
        Milliseconds_def Seconds_def Minutes_def Hours_def Days_def)

lemma conversions_values:
  "timeMsToUnits x None = Inr x"
  "timeMsToUnits x (Some Seconds) = Inr (x / 1000)"
  "timeMsToUnits x (Some Days) = Inr (x / 86400000)"
  "unitsToMs x (Some Hours) = Inr (x * 3600000)"
  "unitsToMs x (Some 7) = Inl Error"
  "timeMsToUnits x (Some (- 1)) = Inl Error"
  by (simp_all add: timeMsToUnits_def unitsToMs_def convert_def Let_def
        Milliseconds_def Seconds_def Minutes_def Hours_def Days_def unitOrDefault_def)

section \<open>Doubles\<close>

text \<open>
  Rounding to the nearest double: \<open>rne\<close> is within a half of its argument, \<open>fl\<close> is within
  the fraction \<open>2 ^ -53\<close> of its argument, a double is its own rounding, and a number that is
  close enough to a double rounds to it.
\<close>

lemma rne_unique: "\<bar>y - of_int n\<bar> < 1 / 2 \<Longrightarrow> rne y = n"
proof -
  assume a: "\<bar>y - of_int n\<bar> < 1 / 2"
  show ?thesis
  proof (cases "of_int n \<le> y")
    case True
    with a have "\<lfloor>y\<rfloor> = n" by (intro floor_unique) auto
    with a True show ?thesis by (simp add: rne_def Let_def)
  next
    case False
    with a have f: "\<lfloor>y\<rfloor> = n - 1" by (intro floor_unique) auto
    from a False have "1 / 2 < y - of_int (n - 1)" by simp
    with f show ?thesis by (simp add: rne_def Let_def)
  qed
qed

lemma rne_of_int [simp]: "rne (of_int n) = n"
  by (rule rne_unique) simp

lemma rne_error: "\<bar>of_int (rne y) - y\<bar> \<le> 1 / 2"
proof -
  have "of_int \<lfloor>y\<rfloor> \<le> y" "y < of_int \<lfloor>y\<rfloor> + 1" by linarith+
  then show ?thesis by (auto simp: rne_def Let_def)
qed

lemma rne_lower: "of_int a \<le> y \<Longrightarrow> a \<le> rne y"
proof -
  assume "of_int a \<le> y"
  then have "a \<le> \<lfloor>y\<rfloor>" by (simp add: le_floor_iff)
  then show ?thesis by (auto simp: rne_def Let_def)
qed

lemma rne_upper: "y \<le> of_int b \<Longrightarrow> rne y \<le> b"
proof (cases "y = of_int b")
  case True
  then show ?thesis by simp
next
  case False
  assume "y \<le> of_int b"
  with False have "y < of_int b" by simp
  then have "\<lfloor>y\<rfloor> < b" by (simp add: floor_less_iff)
  then show ?thesis by (auto simp: rne_def Let_def)
qed

lemma expo_unique:
  "2 powr of_int k \<le> \<bar>x\<bar> \<Longrightarrow> \<bar>x\<bar> < 2 powr (of_int k + 1) \<Longrightarrow> expo x = k"
proof -
  assume a: "2 powr of_int k \<le> \<bar>x\<bar>" and b: "\<bar>x\<bar> < 2 powr (of_int k + 1)"
  have "0 < (2::real) powr of_int k" by simp
  with a have pos: "0 < \<bar>x\<bar>" by linarith
  show ?thesis
    unfolding expo_def using floor_log_eq_powr_iff [of "\<bar>x\<bar>" 2 k] pos a b by simp
qed

lemma expo_bounds:
  assumes "x \<noteq> 0"
  shows "2 powr of_int (expo x) \<le> \<bar>x\<bar>" and "\<bar>x\<bar> < 2 powr (of_int (expo x) + 1)"
  using floor_log_eq_powr_iff [of "\<bar>x\<bar>" 2 "expo x"] assms by (simp_all add: expo_def)

lemma fl_0 [simp]: "fl 0 = 0"
  by (simp add: fl_def)

text \<open>Rounding at a known scale.\<close>

lemma fl_scaled:
  assumes lo: "2 ^ 52 * 2 powr of_int k \<le> \<bar>x\<bar>" and hi: "\<bar>x\<bar> < 2 ^ 53 * 2 powr of_int k"
  shows "fl x = of_int (rne (x / 2 powr of_int k)) * 2 powr of_int k"
proof -
  have p52: "(2::real) powr of_int (k + 52) = 2 ^ 52 * 2 powr of_int k"
    by (simp add: powr_add)
  have p53: "(2::real) powr (of_int (k + 52) + 1) = 2 ^ 53 * 2 powr of_int k"
    by (simp add: powr_add)
  have "expo x = k + 52"
  proof (rule expo_unique)
    show "2 powr of_int (k + 52) \<le> \<bar>x\<bar>" using lo by (simp only: p52)
    show "\<bar>x\<bar> < 2 powr (of_int (k + 52) + 1)" using hi by (simp only: p53)
  qed
  then have u: "ulp x = 2 powr of_int k" by (simp add: ulp_def)
  have "0 < 2 ^ 52 * (2::real) powr of_int k" by simp
  with lo have "x \<noteq> 0" by auto
  then show ?thesis by (simp add: fl_def u)
qed


lemma fl_stable:
  assumes n: "2 ^ 52 \<le> \<bar>n\<bar>" "\<bar>n\<bar> < 2 ^ 53"
    and near: "\<bar>x - of_int n * 2 powr of_int k\<bar> \<le> 2 powr of_int k / 8"
  shows "fl x = of_int n * 2 powr of_int k"
proof -
  define q :: real where "q = 2 powr of_int k"
  have q: "0 < q" by (simp add: q_def)
  define y where "y = x / q"
  have x: "x = y * q" using q by (simp add: y_def)
  have "x - of_int n * q = (y - of_int n) * q"
    by (simp add: x algebra_simps)
  with near q have "\<bar>y - of_int n\<bar> * q \<le> (1 / 8) * q"
    by (simp add: q_def [symmetric] abs_mult)
  then have y: "\<bar>y - of_int n\<bar> \<le> 1 / 8"
    using q by (rule mult_right_le_imp_le)
  from n have "2 ^ 52 \<le> \<bar>n\<bar>" "\<bar>n\<bar> \<le> 2 ^ 53 - 1" by simp_all
  then have "real_of_int (2 ^ 52) \<le> real_of_int \<bar>n\<bar>"
    and "real_of_int \<bar>n\<bar> \<le> real_of_int (2 ^ 53 - 1)"
    by (simp_all only: of_int_le_iff)
  then have nr: "2 ^ 52 \<le> \<bar>real_of_int n\<bar>" "\<bar>real_of_int n\<bar> \<le> 2 ^ 53 - 1"
    by simp_all
  show ?thesis
  proof (cases "2 ^ 52 \<le> \<bar>y\<bar>")
    case True
    from y nr have "\<bar>y\<bar> < 9007199254740992" by (simp, linarith)
    then have "\<bar>y\<bar> < 2 ^ 53" by simp
    with True q have "2 ^ 52 * q \<le> \<bar>x\<bar>" "\<bar>x\<bar> < 2 ^ 53 * q"
      by (simp_all add: x abs_mult)
    then have "fl x = of_int (rne (x / q)) * q"
      unfolding q_def by (rule fl_scaled)
    moreover have "rne (x / q) = n"
      using y by (intro rne_unique) (simp add: y_def)
    ultimately show ?thesis by (simp add: q_def)
  next
    case False
    with y nr have "4503599627370496 \<le> \<bar>2 * y\<bar>" and "\<bar>2 * y\<bar> < 9007199254740992"
      by (simp_all, linarith+)
    then have lo: "2 ^ 52 \<le> \<bar>2 * y\<bar>" and hi: "\<bar>2 * y\<bar> < 2 ^ 53" by simp_all
    have h: "2 powr of_int (k - 1) = q / 2"
      by (simp add: q_def powr_diff)
    have h': "2 powr (real_of_int k - 1) = q / 2"
      by (simp add: q_def powr_diff)
    from lo hi q have "2 ^ 52 * (q / 2) \<le> \<bar>x\<bar>" "\<bar>x\<bar> < 2 ^ 53 * (q / 2)"
      by (simp_all add: x abs_mult)
    then have "fl x = of_int (rne (x / 2 powr of_int (k - 1))) * 2 powr of_int (k - 1)"
      unfolding h [symmetric] by (rule fl_scaled)
    moreover have "rne (x / 2 powr of_int (k - 1)) = 2 * n"
    proof (rule rne_unique)
      have "x / 2 powr of_int (k - 1) = 2 * y" using q by (simp add: h' x)
      moreover have "\<bar>2 * y - 2 * of_int n\<bar> = 2 * \<bar>y - of_int n\<bar>"
        by (auto simp: abs_if)
      ultimately show "\<bar>x / 2 powr real_of_int (k - 1) - real_of_int (2 * n)\<bar> < 1 / 2"
        using y by simp
    qed
    ultimately have "fl x = of_int (2 * n) * (q / 2)" by (simp only: h)
    then show ?thesis by (simp add: q_def)
  qed
qed


lemma fl_dyadic:
  "2 ^ 52 \<le> \<bar>n\<bar> \<Longrightarrow> \<bar>n\<bar> < 2 ^ 53 \<Longrightarrow>
     fl (of_int n * 2 powr of_int k) = of_int n * 2 powr of_int k"
  by (rule fl_stable) simp_all


lemma ulp_pos [simp]: "0 < ulp x"
  by (simp add: ulp_def)

lemma ulp_powr: "ulp x = 2 powr of_int (expo x - 52)"
  by (simp add: ulp_def)

lemma ulp_bounds:
  assumes "x \<noteq> 0"
  shows "2 ^ 52 * ulp x \<le> \<bar>x\<bar>" and "\<bar>x\<bar> < 2 ^ 53 * ulp x"
proof -
  have a: "2 ^ 52 * ulp x = 2 powr of_int (expo x)"
    by (simp add: ulp_def powr_diff)
  have b: "2 ^ 53 * ulp x = 2 powr (of_int (expo x) + 1)"
    by (simp add: ulp_def powr_diff powr_add)
  show "2 ^ 52 * ulp x \<le> \<bar>x\<bar>"
    using expo_bounds(1) [OF assms] by (simp only: a)
  show "\<bar>x\<bar> < 2 ^ 53 * ulp x"
    using expo_bounds(2) [OF assms] by (simp only: b)
qed


lemma scaled_bounds:
  assumes "x \<noteq> 0"
  shows "2 ^ 52 \<le> \<bar>x / ulp x\<bar>" and "\<bar>x / ulp x\<bar> < 2 ^ 53"
proof -
  have "\<bar>ulp x\<bar> = ulp x"
    by (rule abs_of_pos) simp
  then have "\<bar>x / ulp x\<bar> = \<bar>x\<bar> / ulp x"
    by (simp only: abs_divide)
  moreover have "2 ^ 52 \<le> \<bar>x\<bar> / ulp x"
    using ulp_bounds(1) [OF assms] by (simp add: pos_le_divide_eq)
  moreover have "\<bar>x\<bar> / ulp x < 2 ^ 53"
    using ulp_bounds(2) [OF assms] by (simp add: pos_divide_less_eq)
  ultimately show "2 ^ 52 \<le> \<bar>x / ulp x\<bar>" and "\<bar>x / ulp x\<bar> < 2 ^ 53"
    by (simp_all only:)
qed

lemma rne_bounds:
  assumes "2 ^ 52 \<le> \<bar>y\<bar>" and "\<bar>y\<bar> < 2 ^ 53"
  shows "2 ^ 52 \<le> \<bar>rne y\<bar>" and "\<bar>rne y\<bar> \<le> 2 ^ 53"
proof -
  have "2 ^ 52 \<le> \<bar>rne y\<bar> \<and> \<bar>rne y\<bar> \<le> 2 ^ 53"
  proof (cases "0 \<le> y")
    case True
    with assms have "real_of_int (2 ^ 52) \<le> y" and "y \<le> real_of_int (2 ^ 53)"
      by simp_all
    then have "2 ^ 52 \<le> rne y" and "rne y \<le> 2 ^ 53"
      by (simp_all only: rne_lower rne_upper)
    then show ?thesis by simp
  next
    case False
    with assms have "real_of_int (- (2 ^ 53)) \<le> y" and "y \<le> real_of_int (- (2 ^ 52))"
      by simp_all
    then have "- (2 ^ 53) \<le> rne y" and "rne y \<le> - (2 ^ 52)"
      by (simp_all only: rne_lower rne_upper)
    then show ?thesis by simp
  qed
  then show "2 ^ 52 \<le> \<bar>rne y\<bar>" and "\<bar>rne y\<bar> \<le> 2 ^ 53" by simp_all
qed


lemma fl_nonzero: "x \<noteq> 0 \<Longrightarrow> fl x = of_int (rne (x / ulp x)) * ulp x"
  by (simp add: fl_def)

lemma fl_repr:
  assumes "x \<noteq> 0"
  shows "\<exists>n k. fl x = of_int n * 2 powr of_int k \<and> 2 ^ 52 \<le> \<bar>n\<bar> \<and> \<bar>n\<bar> < 2 ^ 53"
proof -
  define k where "k = expo x - 52"
  define N where "N = rne (x / ulp x)"
  have u: "ulp x = 2 powr of_int k"
    unfolding k_def by (rule ulp_powr)
  have f: "fl x = of_int N * 2 powr of_int k"
    unfolding N_def u [symmetric] using assms by (rule fl_nonzero)
  have N: "2 ^ 52 \<le> \<bar>N\<bar>" "\<bar>N\<bar> \<le> 2 ^ 53"
    unfolding N_def using scaled_bounds [OF assms] by (rule rne_bounds)+
  have up: "(2::real) powr of_int (k + 1) = 2 * 2 powr of_int k"
    by (simp add: powr_add)
  show ?thesis
  proof (cases "\<bar>N\<bar> < 2 ^ 53")
    case True
    with N(1) f show ?thesis by blast
  next
    case False
    with N(2) have "\<bar>N\<bar> = 2 ^ 53" by simp
    then have "N = 2 ^ 53 \<or> N = - (2 ^ 53)" by (cases "N < 0") simp_all
    then show ?thesis
    proof
      assume "N = 2 ^ 53"
      then have "fl x = of_int (2 ^ 52) * 2 powr of_int (k + 1)"
        by (simp only: f up) simp
      moreover have "2 ^ 52 \<le> \<bar>(2::int) ^ 52\<bar>" "\<bar>(2::int) ^ 52\<bar> < 2 ^ 53" by simp_all
      ultimately show ?thesis by blast
    next
      assume "N = - (2 ^ 53)"
      then have "fl x = of_int (- (2 ^ 52)) * 2 powr of_int (k + 1)"
        by (simp only: f up) simp
      moreover have "2 ^ 52 \<le> \<bar>- ((2::int) ^ 52)\<bar>" "\<bar>- ((2::int) ^ 52)\<bar> < 2 ^ 53"
        by simp_all
      ultimately show ?thesis by blast
    qed
  qed
qed


lemma fl_idem [simp]: "fl (fl x) = fl x"
proof (cases "x = 0")
  case True
  then show ?thesis by simp
next
  case False
  from fl_repr [OF False] obtain n k where
    r: "fl x = of_int n * 2 powr of_int k" and n: "2 ^ 52 \<le> \<bar>n\<bar>" "\<bar>n\<bar> < 2 ^ 53"
    by blast
  show ?thesis unfolding r using n by (rule fl_dyadic)
qed

lemma isDouble_fl [simp]: "isDouble (fl x)"
  by (simp add: isDouble_def)

lemma isDouble_0 [simp]: "isDouble 0"
  by (simp add: isDouble_def)

lemma fl_eq_0_iff [simp]: "fl x = 0 \<longleftrightarrow> x = 0"
proof
  assume z: "fl x = 0"
  show "x = 0"
  proof (rule ccontr)
    assume "x \<noteq> 0"
    from fl_repr [OF this] obtain n k where
      r: "fl x = of_int n * 2 powr of_int k" and n: "2 ^ 52 \<le> \<bar>n\<bar>"
      by blast
    from n have "n \<noteq> 0" by auto
    moreover have "(2::real) powr of_int k \<noteq> 0" by simp
    ultimately have "of_int n * 2 powr of_int k \<noteq> (0::real)" by simp
    with z r show False by simp
  qed
next
  assume "x = 0"
  then show "fl x = 0" by simp
qed

lemma fl_error: "\<bar>fl x - x\<bar> \<le> \<bar>x\<bar> / 2 ^ 53"
proof (cases "x = 0")
  case True
  then show ?thesis by simp
next
  case False
  define q where "q = ulp x"
  have q: "0 < q" by (simp add: q_def)
  define y where "y = x / q"
  have x: "x = y * q" using q by (simp add: y_def)
  have f: "fl x = of_int (rne y) * q"
    unfolding y_def q_def using False by (rule fl_nonzero)
  have "fl x - x = (of_int (rne y) - y) * q"
    by (simp only: f) (simp add: x algebra_simps)
  then have "\<bar>fl x - x\<bar> = \<bar>of_int (rne y) - y\<bar> * q"
    using q by (simp only: abs_mult abs_of_pos)
  also have "\<dots> \<le> (1 / 2) * q"
    using rne_error [of y] q by (rule mult_right_mono [OF _ less_imp_le])
  also have "\<dots> \<le> \<bar>x\<bar> / 2 ^ 53"
    using ulp_bounds(1) [OF False] by (simp add: q_def)
  finally show ?thesis .
qed


lemma fl_near:
  assumes m: "isDouble m" and near: "\<bar>x - m\<bar> \<le> \<bar>m\<bar> / 2 ^ 56"
  shows "fl x = m"
proof (cases "m = 0")
  case True
  with near show ?thesis by simp
next
  case False
  from m have fm: "fl m = m" by (simp add: isDouble_def)
  from fl_repr [OF False] obtain n k where
    r0: "fl m = of_int n * 2 powr of_int k" and n: "2 ^ 52 \<le> \<bar>n\<bar>" "\<bar>n\<bar> < 2 ^ 53"
    by blast
  from r0 fm have r: "m = of_int n * 2 powr of_int k" by simp
  define q :: real where "q = 2 powr of_int k"
  have q: "0 < q" by (simp add: q_def)
  from n(2) have "real_of_int \<bar>n\<bar> < real_of_int (2 ^ 53)" by (simp only: of_int_less_iff)
  then have nr: "\<bar>real_of_int n\<bar> < 2 ^ 53" by simp
  have "\<bar>m\<bar> = \<bar>real_of_int n\<bar> * q"
    using q by (simp only: r q_def [symmetric] abs_mult abs_of_pos)
  also have "\<dots> < 2 ^ 53 * q"
    using nr q by (rule mult_strict_right_mono)
  finally have "\<bar>m\<bar> / 2 ^ 56 \<le> q / 8" by simp
  with near have "\<bar>x - m\<bar> \<le> q / 8" by linarith
  then have "\<bar>x - of_int n * 2 powr of_int k\<bar> \<le> 2 powr of_int k / 8"
    by (simp only: r [symmetric] q_def)
  with n show ?thesis unfolding r by (rule fl_stable)
qed

text \<open>Evaluating a rounding at a given power of two.\<close>

lemma fl_down:
  assumes "2 ^ 52 \<le> \<bar>x\<bar> * 2 ^ k" and "\<bar>x\<bar> * 2 ^ k < 2 ^ 53"
    and "\<bar>x * 2 ^ k - of_int n\<bar> < 1 / 2"
  shows "fl x = of_int n / 2 ^ k"
proof -
  have p: "(2::real) powr of_int (- int k) = 1 / 2 ^ k"
    by (simp add: powr_minus powr_realpow inverse_eq_divide)
  have "fl x = of_int (rne (x / 2 powr of_int (- int k))) * 2 powr of_int (- int k)"
    using assms(1,2) by (intro fl_scaled) (simp_all only: p, simp_all add: field_simps)
  moreover have "rne (x / 2 powr of_int (- int k)) = n"
    using assms(3) by (intro rne_unique) (simp only: p, simp)
  ultimately show ?thesis by (simp only: p) simp
qed

lemma fl_up:
  assumes "2 ^ 52 \<le> \<bar>x\<bar> / 2 ^ k" and "\<bar>x\<bar> / 2 ^ k < 2 ^ 53"
    and "\<bar>x / 2 ^ k - of_int n\<bar> < 1 / 2"
  shows "fl x = of_int n * 2 ^ k"
proof -
  have p: "(2::real) powr of_int (int k) = 2 ^ k"
    by (simp add: powr_realpow)
  have "fl x = of_int (rne (x / 2 powr of_int (int k))) * 2 powr of_int (int k)"
    using assms(1,2) by (intro fl_scaled) (simp_all only: p, simp_all add: field_simps)
  moreover have "rne (x / 2 powr of_int (int k)) = n"
    using assms(3) by (intro rne_unique) (simp only: p)
  ultimately show ?thesis by (simp only: p)
qed

section \<open>Time periods\<close>

text \<open>
  The factors of \<^verbatim>\<open>timePeriodToMs\<close> are doubles, and so are their products
  \<open>60 * 1000\<close>, \<open>60 * 60000\<close> and \<open>24 * 3600000\<close>.
\<close>

lemma fl_int_consts [simp]:
  "fl 1 = 1" "fl 1000 = 1000" "fl 60000 = 60000" "fl 3600000 = 3600000"
  "fl 86400000 = 86400000"
proof -
  show "fl 1 = 1" using fl_down [of 1 52 "2 ^ 52"] by simp
  show "fl 1000 = 1000" using fl_down [of 1000 43 "1000 * 2 ^ 43"] by simp
  show "fl 60000 = 60000" using fl_down [of 60000 37 "60000 * 2 ^ 37"] by simp
  show "fl 3600000 = 3600000" using fl_down [of 3600000 31 "3600000 * 2 ^ 31"] by simp
  show "fl 86400000 = 86400000" using fl_down [of 86400000 26 "86400000 * 2 ^ 26"] by simp
qed

lemma secondsToMillis_Some [simp]: "secondsToMillis (Some v) = fl (v * 1000)"
  by (simp add: secondsToMillis_def fmul_def)

lemma minutesToMillis_Some [simp]: "minutesToMillis (Some v) = fl (v * 60000)"
  by (simp add: minutesToMillis_def fmul_def)

lemma hoursToMillis_Some [simp]: "hoursToMillis (Some v) = fl (v * 3600000)"
  by (simp add: hoursToMillis_def fmul_def)

lemma daysToMillis_Some [simp]: "daysToMillis (Some v) = fl (v * 86400000)"
  by (simp add: daysToMillis_def fmul_def)

lemma millisToMills_Some [simp]: "millisToMills (Some v) = v"
  by (simp add: millisToMills_def)

lemma toMillis_None [simp]:
  "secondsToMillis None = 0" "minutesToMillis None = 0" "hoursToMillis None = 0"
  "daysToMillis None = 0" "millisToMills None = 0"
  by (simp_all add: secondsToMillis_def minutesToMillis_def hoursToMillis_def daysToMillis_def
        millisToMills_def)




lemma fdiv_error:
  assumes c: "0 < c"
  shows "\<bar>fl (x / c) * c - x\<bar> \<le> \<bar>x\<bar> / 2 ^ 53"
proof -
  have "fl (x / c) * c - x = (fl (x / c) - x / c) * c"
    using c by (simp add: algebra_simps)
  then have "\<bar>fl (x / c) * c - x\<bar> = \<bar>fl (x / c) - x / c\<bar> * c"
    using c by (simp only: abs_mult abs_of_pos)
  also have "\<dots> \<le> (\<bar>x / c\<bar> / 2 ^ 53) * c"
    using fl_error [of "x / c"] c by (rule mult_right_mono [OF _ less_imp_le])
  also have "\<dots> = \<bar>x\<bar> / 2 ^ 53"
    using c by (simp add: abs_divide)
  finally show ?thesis .
qed

lemma bound_106:
  fixes x y c :: real
  assumes "y \<le> x / 9007199254740992" and "x \<le> c / 9007199254740992"
  shows "y \<le> c / 81129638414606681695789005144064"
proof -
  from assms(2) have "x / 9007199254740992 \<le> (c / 9007199254740992) / 9007199254740992"
    by (rule divide_right_mono) simp
  also have "\<dots> = c / 81129638414606681695789005144064" by simp
  finally show ?thesis using assms(1) by simp
qed

text \<open>
  The days and the hours of the period that \<open>unitsToTimePeriod\<close> builds add up, in doubles, to
  the milliseconds they were taken from: the hours hold what the rounding of the days lost.
\<close>

lemma days_plus_hours:
  assumes m: "isDouble m"
  shows "fl (fl (fl (m / 86400000) * 86400000)
           + fl (fl (fl (m - fl (fl (m / 86400000) * 86400000)) / 3600000) * 3600000)) = m"
    and "\<bar>fl (fl (m - fl (fl (m / 86400000) * 86400000)) / 3600000) * 3600000\<bar>
           \<le> 5 * \<bar>m\<bar> / 2 ^ 53"
proof -
  define d where "d = fl (m / 86400000)"
  define t where "t = fl (d * 86400000)"
  define r where "r = fl (m - t)"
  define h where "h = fl (r / 3600000)"
  define g where "g = fl (h * 3600000)"
  define a where "a = \<bar>m\<bar>"
  have a: "0 \<le> a" by (simp add: a_def)
  have "\<bar>d * 86400000 - m\<bar> \<le> \<bar>m\<bar> / 2 ^ 53"
    unfolding d_def by (rule fdiv_error) simp
  then have e1: "\<bar>d * 86400000 - m\<bar> \<le> a / 9007199254740992"
    by (simp add: a_def)
  from e1 a have b1: "\<bar>d * 86400000\<bar> \<le> 2 * a"
    unfolding a_def by linarith
  have "\<bar>t - d * 86400000\<bar> \<le> \<bar>d * 86400000\<bar> / 2 ^ 53"
    unfolding t_def by (rule fl_error)
  then have "\<bar>t - d * 86400000\<bar> \<le> \<bar>d * 86400000\<bar> / 9007199254740992"
    by simp
  with b1 have e2: "\<bar>t - d * 86400000\<bar> \<le> 2 * a / 9007199254740992" by linarith
  from e1 e2 have b2: "\<bar>m - t\<bar> \<le> 3 * a / 9007199254740992" by linarith
  have "\<bar>r - (m - t)\<bar> \<le> \<bar>m - t\<bar> / 2 ^ 53"
    unfolding r_def by (rule fl_error)
  then have "\<bar>r - (m - t)\<bar> \<le> \<bar>m - t\<bar> / 9007199254740992"
    by simp
  then have e3: "\<bar>r - (m - t)\<bar> \<le> 3 * a / 81129638414606681695789005144064" using b2 by (rule bound_106)
  from e3 b2 a have b3: "\<bar>r\<bar> \<le> 4 * a / 9007199254740992" by linarith
  have "\<bar>h * 3600000 - r\<bar> \<le> \<bar>r\<bar> / 2 ^ 53"
    unfolding h_def by (rule fdiv_error) simp
  then have "\<bar>h * 3600000 - r\<bar> \<le> \<bar>r\<bar> / 9007199254740992"
    by simp
  then have e4: "\<bar>h * 3600000 - r\<bar> \<le> 4 * a / 81129638414606681695789005144064" using b3 by (rule bound_106)
  from e4 b3 a have b4: "\<bar>h * 3600000\<bar> \<le> 5 * a / 9007199254740992" by linarith
  have "\<bar>g - h * 3600000\<bar> \<le> \<bar>h * 3600000\<bar> / 2 ^ 53"
    unfolding g_def by (rule fl_error)
  then have "\<bar>g - h * 3600000\<bar> \<le> \<bar>h * 3600000\<bar> / 9007199254740992"
    by simp
  then have e5: "\<bar>g - h * 3600000\<bar> \<le> 5 * a / 81129638414606681695789005144064" using b4 by (rule bound_106)
  from e3 e4 e5 a have "\<bar>t + g - m\<bar> \<le> a / 72057594037927936" by linarith
  then have "\<bar>t + g - m\<bar> \<le> \<bar>m\<bar> / 2 ^ 56"
    by (simp add: a_def)
  with m have "fl (t + g) = m" by (rule fl_near)
  then show "fl (fl (fl (m / 86400000) * 86400000)
           + fl (fl (fl (m - fl (fl (m / 86400000) * 86400000)) / 3600000) * 3600000)) = m"
    unfolding g_def h_def r_def t_def d_def .
  from b4 have "\<bar>h * 3600000\<bar> \<le> 5 * \<bar>m\<bar> / 2 ^ 53"
    by (simp add: a_def)
  then show "\<bar>fl (fl (m - fl (fl (m / 86400000) * 86400000)) / 3600000) * 3600000\<bar>
           \<le> 5 * \<bar>m\<bar> / 2 ^ 53"
    unfolding h_def r_def t_def d_def .
qed


lemma unit_periods [simp]:
  "timePeriodToMs (emptyPeriod\<lparr>days := Some 1\<rparr>) = 86400000"
  "timePeriodToMs (emptyPeriod\<lparr>hours := Some 1\<rparr>) = 3600000"
  "timePeriodToMs (emptyPeriod\<lparr>minutes := Some 1\<rparr>) = 60000"
  "timePeriodToMs (emptyPeriod\<lparr>seconds := Some 1\<rparr>) = 1000"
  "timePeriodToMs (emptyPeriod\<lparr>millis := Some 1\<rparr>) = 1"
  by (simp_all add: timePeriodToMs_def emptyPeriod_def fadd_def)

lemma unitsToTimePeriod_double:
  assumes m: "isDouble m"
  shows "unitsToTimePeriod m None =
     Inr \<lparr>days = Some (fdiv m 86400000),
          hours = Some (fdiv (fsub m (fmul (fdiv m 86400000) 86400000)) 3600000),
          minutes = Some 0, seconds = Some 0, millis = Some 0\<rparr>"
    and "timePeriodToMs
           \<lparr>days = Some (fdiv m 86400000),
            hours = Some (fdiv (fsub m (fmul (fdiv m 86400000) 86400000)) 3600000),
            minutes = Some 0, seconds = Some 0, millis = Some 0\<rparr> = m"
proof -
  define d where "d = fl (m / 86400000)"
  define t where "t = fl (d * 86400000)"
  define h where "h = fl (fl (m - t) / 3600000)"
  from m have fm: "fl m = m" by (simp add: isDouble_def)
  have core: "fl (t + fl (h * 3600000)) = m"
    unfolding h_def t_def d_def using m by (rule days_plus_hours(1))
  define p1 where "p1 = emptyPeriod\<lparr>days := Some d\<rparr>"
  define p2 where "p2 = p1\<lparr>hours := Some h\<rparr>"
  define p3 where "p3 = p2\<lparr>minutes := Some 0\<rparr>"
  define p4 where "p4 = p3\<lparr>seconds := Some 0\<rparr>"
  define p5 where "p5 = p4\<lparr>millis := Some 0\<rparr>"
  have t1: "timePeriodToMs p1 = t"
    by (simp add: p1_def timePeriodToMs_def emptyPeriod_def fadd_def t_def)
  have t2: "timePeriodToMs p2 = m"
    by (simp add: p2_def p1_def timePeriodToMs_def emptyPeriod_def fadd_def t_def [symmetric] core fm)
  have t3: "timePeriodToMs p3 = m"
    by (simp add: p3_def p2_def p1_def timePeriodToMs_def emptyPeriod_def fadd_def
          t_def [symmetric] core fm)
  have t4: "timePeriodToMs p4 = m"
    by (simp add: p4_def p3_def p2_def p1_def timePeriodToMs_def emptyPeriod_def fadd_def
          t_def [symmetric] core fm)
  have "unitsToTimePeriod m None = Inr p5"
    by (simp add: unitsToTimePeriod_def Let_def fm fdiv_def fsub_def
          d_def [symmetric] p1_def [symmetric] t1 h_def [symmetric] p2_def [symmetric] t2
          p3_def [symmetric] t3 p4_def [symmetric] t4 p5_def [symmetric])
  moreover have "p5 = \<lparr>days = Some d, hours = Some h, minutes = Some 0, seconds = Some 0,
                         millis = Some 0\<rparr>"
    by (simp add: p5_def p4_def p3_def p2_def p1_def emptyPeriod_def)
  ultimately show "unitsToTimePeriod m None =
     Inr \<lparr>days = Some (fdiv m 86400000),
          hours = Some (fdiv (fsub m (fmul (fdiv m 86400000) 86400000)) 3600000),
          minutes = Some 0, seconds = Some 0, millis = Some 0\<rparr>"
    by (simp add: fdiv_def fsub_def fmul_def d_def t_def h_def)
  have "timePeriodToMs \<lparr>days = Some d, hours = Some h, minutes = Some 0, seconds = Some 0,
                         millis = Some 0\<rparr> = m"
    by (simp add: timePeriodToMs_def fadd_def t_def [symmetric] core fm)
  then show "timePeriodToMs
           \<lparr>days = Some (fdiv m 86400000),
            hours = Some (fdiv (fsub m (fmul (fdiv m 86400000) 86400000)) 3600000),
            minutes = Some 0, seconds = Some 0, millis = Some 0\<rparr> = m"
    by (simp add: fdiv_def fsub_def fmul_def d_def t_def h_def)
qed






lemma hours_zero_iff:
  "fdiv (fsub m t) 3600000 = 0 \<longleftrightarrow> t = m"
  by (auto simp: fdiv_def fsub_def)

lemma isDouble_27: "isDouble 27"
  unfolding isDouble_def using fl_down [of 27 48 7599824371187712] by simp

lemma days_27: "fdiv 27 86400000 = 5902958103587057 / 2 ^ 74"
  unfolding fdiv_def using fl_down [of "27 / 86400000" 74 5902958103587057] by simp

lemma total_27: "fmul (5902958103587057 / 2 ^ 74) 86400000 = 7599824371187713 / 2 ^ 48"
  unfolding fmul_def
  using fl_down [of "5902958103587057 / 2 ^ 74 * 86400000" 48 7599824371187713] by simp

lemma rest_27: "fsub 27 (7599824371187713 / 2 ^ 48) = - 1 / 2 ^ 48"
  unfolding fsub_def
  using fl_down [of "27 - 7599824371187713 / 2 ^ 48" 100 "- 4503599627370496"] by simp

lemma hours_27: "fdiv (- 1 / 2 ^ 48) 3600000 = - 5247073869855161 / 2 ^ 122"
  unfolding fdiv_def
  using fl_down [of "- 1 / 2 ^ 48 / 3600000" 122 "- 5247073869855161"] by simp

lemma unitsToTimePeriod_27:
  "unitsToTimePeriod 27 None =
     Inr \<lparr>days = Some (5902958103587057 / 2 ^ 74), hours = Some (- 5247073869855161 / 2 ^ 122),
          minutes = Some 0, seconds = Some 0, millis = Some 0\<rparr>"
  by (simp only: unitsToTimePeriod_double(1) [OF isDouble_27] days_27 total_27 rest_27 hours_27)

lemma daysToMillis_27:
  "daysToMillis (Some (5902958103587057 / 2 ^ 74)) = 7599824371187713 / 2 ^ 48"
  using total_27 by (simp only: daysToMillis_Some fmul_def)

text \<open>
  Claim C10 says that the hours, minutes, seconds and millis of \<^verbatim>\<open>unitsToTimePeriod(ms)\<close> are
  exactly \<open>0\<close> for every \<open>ms\<close>. For \<open>ms = 27\<close> the days are the double nearest to
  \<open>27 / 86400000\<close>, which is \<open>5902958103587057 / 2 ^ 74\<close>; these days alone are
  \<open>7599824371187713 / 2 ^ 48\<close> milliseconds (\<^verbatim>\<open>27.000000000000004\<close>), not \<open>27\<close>, and the hours
  of the period are what is left, \<open>- 5247073869855161 / 2 ^ 122\<close>
  (\<^verbatim>\<open>-9.868649107779169e-22\<close>), not \<open>0\<close>.
\<close>

theorem C10_hours_not_zero_counterexample:
  "\<exists>p. unitsToTimePeriod 27 None = Inr p
       \<and> days p = Some (5902958103587057 / 2 ^ 74)
       \<and> daysToMillis (days p) = 7599824371187713 / 2 ^ 48
       \<and> daysToMillis (days p) \<noteq> 27
       \<and> hours p = Some (- 5247073869855161 / 2 ^ 122)
       \<and> hours p \<noteq> Some 0"
proof -
  let ?p = "\<lparr>days = Some (5902958103587057 / 2 ^ 74),
             hours = Some (- 5247073869855161 / 2 ^ 122),
             minutes = Some 0, seconds = Some 0, millis = Some (0::real)\<rparr>"
  have 1: "unitsToTimePeriod 27 None = Inr ?p" by (rule unitsToTimePeriod_27)
  have 2: "days ?p = Some (5902958103587057 / 2 ^ 74)" by simp
  have 3: "daysToMillis (days ?p) = 7599824371187713 / 2 ^ 48"
    using daysToMillis_27 by simp
  have 4: "daysToMillis (days ?p) \<noteq> 27"
    unfolding 3 by simp
  have 5: "hours ?p = Some (- 5247073869855161 / 2 ^ 122)" by simp
  have 6: "hours ?p \<noteq> Some 0" by simp
  from 1 2 3 4 5 6 show ?thesis by blast
qed

text \<open>
  Claim C10, as the code has it on doubles. For every double \<open>ms\<close> in range,
  \<^verbatim>\<open>unitsToTimePeriod(ms)\<close> returns, with or without the unit \<^verbatim>\<open>Milliseconds\<close>, the period whose
  days are the quotient \<open>ms / 86400000\<close> rounded to a double, whose hours are the rest
  \<open>ms - days * 86400000\<close> (both operations rounded) divided by \<open>3600000\<close>, and whose minutes,
  seconds and millis are \<open>0\<close>. The hours are \<open>0\<close> exactly when the days alone convert back to
  \<open>ms\<close>; in every case they stand for at most \<open>5 * \<bar>ms\<bar> / 2 ^ 53\<close> milliseconds, the days
  differ from the exact quotient by at most its fraction \<open>2 ^ -53\<close>, and \<^verbatim>\<open>timePeriodToMs\<close> of
  the period is \<open>ms\<close> again.
\<close>

theorem C10_fractional_days_and_residual:
  assumes "isDouble ms" and "inRange ms"
  shows "\<exists>p. unitsToTimePeriod ms None = Inr p
       \<and> unitsToTimePeriod ms (Some Milliseconds) = Inr p
       \<and> days p = Some (fdiv ms 86400000)
       \<and> hours p = Some (fdiv (fsub ms (daysToMillis (days p))) 3600000)
       \<and> minutes p = Some 0 \<and> seconds p = Some 0 \<and> millis p = Some 0
       \<and> (hours p = Some 0 \<longleftrightarrow> daysToMillis (days p) = ms)
       \<and> \<bar>orZero (days p) - ms / 86400000\<bar> \<le> \<bar>ms / 86400000\<bar> / 2 ^ 53
       \<and> \<bar>orZero (hours p) * 3600000\<bar> \<le> 5 * \<bar>ms\<bar> / 2 ^ 53
       \<and> timePeriodToMs p = ms"
proof -
  let ?d = "fdiv ms 86400000"
  let ?h = "fdiv (fsub ms (fmul ?d 86400000)) 3600000"
  let ?p = "\<lparr>days = Some ?d, hours = Some ?h, minutes = Some 0, seconds = Some 0,
              millis = Some (0::real)\<rparr>"
  have dm: "daysToMillis (days ?p) = fmul ?d 86400000"
    by (simp add: fmul_def)
  have 1: "unitsToTimePeriod ms None = Inr ?p"
    using assms(1) by (rule unitsToTimePeriod_double(1))
  have 2: "unitsToTimePeriod ms (Some Milliseconds) = Inr ?p"
    using 1 by (simp add: unitsToTimePeriod_def)
  have 3: "days ?p = Some ?d" by simp
  have 4: "hours ?p = Some (fdiv (fsub ms (daysToMillis (days ?p))) 3600000)"
    unfolding dm by simp
  have 5: "minutes ?p = Some 0" "seconds ?p = Some 0" "millis ?p = Some 0" by simp_all
  have 6: "hours ?p = Some 0 \<longleftrightarrow> daysToMillis (days ?p) = ms"
    unfolding dm using hours_zero_iff [of ms "fmul ?d 86400000"] by simp
  have 7: "\<bar>orZero (days ?p) - ms / 86400000\<bar> \<le> \<bar>ms / 86400000\<bar> / 2 ^ 53"
    using fl_error [of "ms / 86400000"] by (simp add: orZero_def fdiv_def)
  have 8: "\<bar>orZero (hours ?p) * 3600000\<bar> \<le> 5 * \<bar>ms\<bar> / 2 ^ 53"
    using days_plus_hours(2) [OF assms(1)] by (simp add: orZero_def fdiv_def fsub_def fmul_def)
  have 9: "timePeriodToMs ?p = ms"
    using assms(1) by (rule unitsToTimePeriod_double(2))
  from 1 2 3 4 5 6 7 8 9 show ?thesis by blast
qed

lemma isDouble_129600000: "isDouble 129600000"
  unfolding isDouble_def using fl_down [of 129600000 26 8697308774400000] by simp

lemma inRange_129600000: "inRange 129600000"
  by (simp add: inRange_def)

text \<open>
  One and a half days: \<open>129600000\<close> milliseconds are a double in range.
\<close>

theorem C10_fractional_days_and_residual_witness:
  "isDouble 129600000 \<and> inRange 129600000
   \<and> (\<exists>p. unitsToTimePeriod 129600000 None = Inr p
       \<and> unitsToTimePeriod 129600000 (Some Milliseconds) = Inr p
       \<and> days p = Some (fdiv 129600000 86400000)
       \<and> hours p = Some (fdiv (fsub 129600000 (daysToMillis (days p))) 3600000)
       \<and> minutes p = Some 0 \<and> seconds p = Some 0 \<and> millis p = Some 0
       \<and> (hours p = Some 0 \<longleftrightarrow> daysToMillis (days p) = 129600000)
       \<and> \<bar>orZero (days p) - 129600000 / 86400000\<bar> \<le> \<bar>129600000 / 86400000\<bar> / 2 ^ 53
       \<and> \<bar>orZero (hours p) * 3600000\<bar> \<le> 5 * \<bar>129600000\<bar> / 2 ^ 53
       \<and> timePeriodToMs p = 129600000)"
  by (intro conjI isDouble_129600000 inRange_129600000
        C10_fractional_days_and_residual [OF isDouble_129600000 inRange_129600000])






section \<open>The time publisher\<close>

lemma run_Nil [simp]: "run w [] = w"
  by (simp add: run_def)

lemma run_Cons [simp]: "run w (e # es) = run (step w e) es"
  by (simp add: run_def)

lemma run_append: "run w (xs @ ys) = run (run w xs) ys"
  by (simp add: run_def)

lemma publisherInv_new: "publisherInv (newWorld arg now1 now2)"
  by (simp add: publisherInv_def newWorld_def newClock_def)

lemma publisherInv_enable: "publisherInv w \<Longrightarrow> publisherInv (enableTimePublisher w b)"
  by (auto simp: publisherInv_def enableTimePublisher_def setInterval_def clearTimeout_def
        truthyId_def Let_def split: option.splits)

lemma timePublisherId_setTime [simp]: "timePublisherId (setTime c now x) = timePublisherId c"
  by (simp add: setTime_def)

lemma timePublisherId_setScale [simp]: "timePublisherId (setScale c a b s) = timePublisherId c"
  by (simp add: setScale_def setTime_def)

lemma timePublisherId_setPaused [simp]: "timePublisherId (setPaused c a b v) = timePublisherId c"
  by (simp add: setPaused_def Let_def)

lemma tick_fields [simp]:
  "activeTimers (tick w h now) = activeTimers w"
  by (simp add: tick_def publishTime_def)

lemma publisherInv_step: "publisherInv w \<Longrightarrow> publisherInv (step w e)"
proof (cases e)
  case (Enable b)
  assume "publisherInv w"
  then show ?thesis by (simp add: Enable publisherInv_enable)
qed (auto simp: publisherInv_def split: option.splits)

lemma publisherInv_run: "publisherInv w \<Longrightarrow> publisherInv (run w es)"
  by (induction es arbitrary: w) (simp_all add: publisherInv_step)

lemma disable_quiet:
  assumes "publisherInv w"
  shows "timePublisherId (clock (enableTimePublisher w False)) = None"
    and "activeTimers (enableTimePublisher w False) = {}"
    and "published (enableTimePublisher w False) = published w"
  using assms
  by (auto simp: publisherInv_def enableTimePublisher_def clearTimeout_def truthyId_def Let_def
        split: option.splits)

lemma quiet_step:
  assumes "timePublisherId (clock w) = None" and "activeTimers w = {}" and "e \<noteq> Enable True"
  shows "timePublisherId (clock (step w e)) = None"
    and "activeTimers (step w e) = {}"
    and "published (step w e) = published w"
  using assms
  by (cases e; simp add: enableTimePublisher_def tick_def)+

lemma quiet_run:
  "timePublisherId (clock w) = None \<Longrightarrow> activeTimers w = {} \<Longrightarrow> Enable True \<notin> set es \<Longrightarrow>
     timePublisherId (clock (run w es)) = None \<and> activeTimers (run w es) = {}
     \<and> published (run w es) = published w"
proof (induction es arbitrary: w)
  case Nil
  then show ?case by simp
next
  case (Cons e es)
  from Cons.prems have ne: "e \<noteq> Enable True" and rest: "Enable True \<notin> set es" by auto
  note q = quiet_step [OF Cons.prems(1) Cons.prems(2) ne]
  from Cons.IH [OF q(1) q(2) rest] q(3) show ?case by simp
qed

text \<open>
  Claim C9. Take a newly constructed clock, let anything happen to it (\<open>pre\<close>), then call
  \<^verbatim>\<open>enableTimePublisher(false)\<close>. Whatever happens next (\<open>es\<close>: ticks of any handle, among them
  a tick of the cleared interval that was already scheduled, and calls of the other
  methods), as long as \<^verbatim>\<open>enableTimePublisher(true)\<close> is not called, nothing more is published, no
  interval of the clock is live and the clock holds no handle.
\<close>

theorem C9_no_publish_after_disable:
  "Enable True \<notin> set es \<Longrightarrow>
     published (run (enableTimePublisher (run (newWorld arg now1 now2) pre) False) es)
       = published (run (newWorld arg now1 now2) pre)
     \<and> activeTimers (run (enableTimePublisher (run (newWorld arg now1 now2) pre) False) es) = {}
     \<and> timePublisherId (clock (run (enableTimePublisher (run (newWorld arg now1 now2) pre) False) es))
         = None"
proof -
  assume es: "Enable True \<notin> set es"
  let ?w = "run (newWorld arg now1 now2) pre"
  have inv: "publisherInv ?w"
    by (rule publisherInv_run [OF publisherInv_new])
  note d = disable_quiet [OF inv]
  from quiet_run [OF d(1) d(2) es] d(3) show ?thesis by simp
qed

text \<open>While the publisher is enabled, a tick of its interval publishes the clock's time.\<close>

lemma publisher_example:
  "published (run (newWorld (Some 0) 1000 1000) [Enable True, Tick 1 2000, SetScale 2500 2500 2, Tick 1 3000])
     = [1000, 2500]"
  by (simp add: newWorld_def newClock_def enableTimePublisher_def setInterval_def truthyId_def
        tick_def publishTime_def getTime_def setScale_def setTime_def Let_def)

theorem C9_no_publish_after_disable_witness:
  "Enable True \<notin> set [Tick 1 4000, SetPaused 4100 4100 True, Tick 1 5000, Enable False, Tick 2 6000]
   \<and> published (run (enableTimePublisher
         (run (newWorld (Some 0) 1000 1000)
              [Enable True, Tick 1 2000, SetScale 2500 2500 2, Tick 1 3000]) False)
         [Tick 1 4000, SetPaused 4100 4100 True, Tick 1 5000, Enable False, Tick 2 6000])
       = published (run (newWorld (Some 0) 1000 1000)
              [Enable True, Tick 1 2000, SetScale 2500 2500 2, Tick 1 3000])
   \<and> activeTimers (run (enableTimePublisher
         (run (newWorld (Some 0) 1000 1000)
              [Enable True, Tick 1 2000, SetScale 2500 2500 2, Tick 1 3000]) False)
         [Tick 1 4000, SetPaused 4100 4100 True, Tick 1 5000, Enable False, Tick 2 6000]) = {}
   \<and> timePublisherId (clock (run (enableTimePublisher
         (run (newWorld (Some 0) 1000 1000)
              [Enable True, Tick 1 2000, SetScale 2500 2500 2, Tick 1 3000]) False)
         [Tick 1 4000, SetPaused 4100 4100 True, Tick 1 5000, Enable False, Tick 2 6000])) = None"
proof -
  have es: "Enable True \<notin> set [Tick 1 4000, SetPaused 4100 4100 True, Tick 1 5000, Enable False,
                              Tick 2 6000]"
    by simp
  show ?thesis
    by (rule conjI [OF es C9_no_publish_after_disable [OF es]])
qed

section \<open>throttle\<close>

lemma play_Nil [simp]: "play th [] = th"
  by (simp add: play_def)

lemma play_Cons [simp]: "play th (x # xs) = play (act th x) xs"
  by (simp add: play_def)

lemma play_append: "play th (xs @ ys) = play (play th xs) ys"
  by (simp add: play_def)

lemma play_snoc: "play th (xs @ [x]) = act (play th xs) x"
  by (simp add: play_def)

lemma latestCall_snoc_Invoke [simp]: "latestCall (xs @ [Invoke now a]) = Some (now, a)"
  by (induction xs) simp_all

lemma latestCall_snoc_Expire [simp]: "latestCall (xs @ [Expire t]) = latestCall xs"
  by (induction xs) simp_all

text \<open>Calls made before the event loop runs: the timeout of the latest call is due at once.\<close>

lemma calls_before_first_expiry:
  "sorted (map fst (cs @ [(tj, aj)])) \<Longrightarrow>
     \<exists>l. l \<le> tj - T \<and>
       play (throttle T) (invokeAll (cs @ [(tj, aj)])) =
         \<lparr>threshold = T, lastTime = Some l,
          timeout = Some \<lparr>due = tj, capturedNow = tj, args = aj\<rparr>, invocations = []\<rparr>"
proof (induction cs arbitrary: tj aj rule: rev_induct)
  case Nil
  show ?case
    by (simp add: invokeAll_def throttle_def wrapper_def)
next
  case (snoc c cs)
  obtain tc ac where c: "c = (tc, ac)" by (cases c)
  from snoc.prems have le: "tc \<le> tj" and srt: "sorted (map fst (cs @ [(tc, ac)]))"
    by (simp_all add: c sorted_append)
  from snoc.IH [OF srt] obtain l where l: "l \<le> tc - T"
    and st: "play (throttle T) (invokeAll (cs @ [(tc, ac)])) =
               \<lparr>threshold = T, lastTime = Some l,
                timeout = Some \<lparr>due = tc, capturedNow = tc, args = ac\<rparr>, invocations = []\<rparr>"
    by blast
  have "invokeAll (cs @ [c, (tj, aj)]) = invokeAll (cs @ [(tc, ac)]) @ [Invoke tj aj]"
    by (simp add: invokeAll_def c)
  then have step: "play (throttle T) (invokeAll (cs @ [c, (tj, aj)])) =
      wrapper \<lparr>threshold = T, lastTime = Some l,
                timeout = Some \<lparr>due = tc, capturedNow = tc, args = ac\<rparr>, invocations = []\<rparr> tj aj"
    by (simp only: play_snoc st act.simps)
  show ?case
  proof (cases "l = 0")
    case True
    have "play (throttle T) (invokeAll (cs @ [c, (tj, aj)])) =
         \<lparr>threshold = T, lastTime = Some (tj - T),
          timeout = Some \<lparr>due = tj, capturedNow = tj, args = aj\<rparr>, invocations = []\<rparr>"
      by (simp add: step wrapper_def True)
    then show ?thesis by simp
  next
    case False
    from l le have "T - (tj - l) \<le> 0" by simp
    then have "max 0 (T - (tj - l)) = 0" by simp
    then have "play (throttle T) (invokeAll (cs @ [c, (tj, aj)])) =
         \<lparr>threshold = T, lastTime = Some l,
          timeout = Some \<lparr>due = tj, capturedNow = tj, args = aj\<rparr>, invocations = []\<rparr>"
      by (simp add: step wrapper_def False Let_def)
    moreover from l le have "l \<le> tj - T" by simp
    ultimately show ?thesis by simp
  qed
qed


text \<open>
  After the timeout of a call made at \<open>tj\<close> has run, and until \<open>tj + T\<close>: every call
  replaces the pending timeout by one that is due at \<open>tj + T\<close>, and nothing runs.
\<close>

lemma calls_within_threshold:
  assumes tj: "tj \<noteq> 0"
    and window: "\<forall>x \<in> set as. actionTime x < tj + T"
  shows "play \<lparr>threshold = T, lastTime = Some tj, timeout = None, invocations = done\<rparr> as =
         \<lparr>threshold = T, lastTime = Some tj,
          timeout = (case latestCall as of
                       None \<Rightarrow> None
                     | Some (now, a) \<Rightarrow> Some \<lparr>due = tj + T, capturedNow = now, args = a\<rparr>),
          invocations = done\<rparr>"
  using window
proof (induction as rule: rev_induct)
  case Nil
  show ?case by simp
next
  case (snoc x xs)
  from snoc.prems have before: "\<forall>x \<in> set xs. actionTime x < tj + T"
    and x: "actionTime x < tj + T"
    by simp_all
  note st = snoc.IH [OF before]
  show ?case
  proof (cases x)
    case (Invoke now a)
    with x have "now < tj + T" by simp
    then have "max 0 (T - (now - tj)) = T - (now - tj)" by simp
    then show ?thesis
      by (simp add: play_snoc st Invoke wrapper_def tj Let_def)
  next
    case (Expire t)
    with x have "t < tj + T" by simp
    then show ?thesis
      by (auto simp: play_snoc st Expire expire_def split: option.splits)
  qed
qed

text \<open>
  Claim C6 says that a burst of 10 calls within 50 ms, with the threshold 200 ms and from
  the initial state, leads to one invocation only, with the last argument, no earlier than
  200 ms after the first call. Two runs of such a burst, with calls at 1000, 1005, ..., 1045:
  when the event loop runs after the first call (each call is a task of its own), the first
  call's timeout has the delay \<open>0\<close> and the action runs twice, with the argument \<open>1\<close> at once
  and with the argument \<open>10\<close> at 1200; when the event loop does not run before the last call,
  the action runs once, with the argument \<open>10\<close>, as soon as the loop is free: 45 ms after the
  first call.
\<close>

theorem C6_throttle_burst_counterexample:
  "invocations (play (throttle 200)
     [Invoke 1000 (1::nat), Expire 1000, Invoke 1005 2, Invoke 1010 3, Invoke 1015 4,
      Invoke 1020 5, Invoke 1025 6, Invoke 1030 7, Invoke 1035 8, Invoke 1040 9,
      Invoke 1045 10, Expire 1199, Expire 1200]) = [(1000, 1), (1200, 10)]
   \<and> invocations (play (throttle 200)
     [Invoke 1000 (1::nat), Invoke 1005 2, Invoke 1010 3, Invoke 1015 4,
      Invoke 1020 5, Invoke 1025 6, Invoke 1030 7, Invoke 1035 8, Invoke 1040 9,
      Invoke 1045 10, Expire 1045, Expire 1300]) = [(1045, 10)]"
  by (simp add: throttle_def wrapper_def expire_def Let_def)

text \<open>
  Claim C6, as the code has it. From the initial state, the calls made before the event
  loop next runs (\<open>cs\<close> and then the call \<open>(tj, aj)\<close>, in the order of their times) leave one
  timeout, due at once: when the loop runs, at \<open>e1\<close>, the action is invoked with the arguments
  \<open>aj\<close> of the latest of them. Of the actions \<open>as\<close> that follow before \<open>tj + T\<close>, the calls each
  replace the pending timeout by one due at \<open>tj + T\<close> and the expiries find nothing due; at
  \<open>e2\<close>, not before \<open>tj + T\<close>, the action is invoked once more, with the arguments of the latest
  call of \<open>as\<close>, if \<open>as\<close> has a call. No other invocation happens.
\<close>

theorem C6_throttle_first_burst:
  assumes "sorted (map fst (cs @ [(tj, aj)]))"
    and "tj \<le> e1" and "tj \<noteq> 0"
    and "\<forall>x \<in> set as. actionTime x < tj + T"
    and "tj + T \<le> e2"
  shows "invocations (play (throttle T)
            (invokeAll (cs @ [(tj, aj)]) @ [Expire e1] @ as @ [Expire e2])) =
         (e1, aj) # (case latestCall as of None \<Rightarrow> [] | Some (now, a) \<Rightarrow> [(e2, a)])"
proof -
  let ?A = "invokeAll (cs @ [(tj, aj)])"
  from calls_before_first_expiry [OF assms(1), of T] obtain l where
    first: "play (throttle T) ?A =
         \<lparr>threshold = T, lastTime = Some l,
          timeout = Some \<lparr>due = tj, capturedNow = tj, args = aj\<rparr>, invocations = []\<rparr>"
    by blast
  have split: "play (throttle T) (?A @ [Expire e1] @ as @ [Expire e2]) =
        expire (play (expire (play (throttle T) ?A) e1) as) e2"
    by (simp add: play_append)
  have fired: "expire (play (throttle T) ?A) e1 =
         \<lparr>threshold = T, lastTime = Some tj, timeout = None, invocations = [(e1, aj)]\<rparr>"
    using assms(2) by (simp add: first expire_def)
  have burst: "play (expire (play (throttle T) ?A) e1) as =
         \<lparr>threshold = T, lastTime = Some tj,
          timeout = (case latestCall as of
                       None \<Rightarrow> None
                     | Some (now, a) \<Rightarrow> Some \<lparr>due = tj + T, capturedNow = now, args = a\<rparr>),
          invocations = [(e1, aj)]\<rparr>"
    by (simp only: fired calls_within_threshold [OF assms(3) assms(4)])
  show ?thesis
    using assms(5) by (simp only: split burst) (simp add: expire_def split: option.splits)
qed

theorem C6_throttle_first_burst_witness:
  "invocations (play (throttle 200)
     (invokeAll ([] @ [(1000, 1::nat)]) @ [Expire 1001]
      @ [Invoke 1005 2, Invoke 1010 3, Invoke 1015 4, Invoke 1020 5, Invoke 1025 6,
         Invoke 1030 7, Invoke 1035 8, Invoke 1040 9, Invoke 1045 10, Expire 1100]
      @ [Expire 1200])) = [(1001, 1), (1200, 10)]"
proof -
  have srt: "sorted (map fst ([] @ [(1000::real, 1::nat)]))"
    by simp
  have window: "\<forall>x \<in> set [Invoke 1005 2, Invoke 1010 3, Invoke 1015 4, Invoke 1020 5,
                   Invoke 1025 6, Invoke 1030 7, Invoke 1035 8, Invoke 1040 9,
                   Invoke 1045 (10::nat), Expire 1100]. actionTime x < 1000 + 200"
    by simp
  from C6_throttle_first_burst [OF srt _ _ window, of 1001 1200]
  show ?thesis by simp
qed

end
